theory Spec2Isabelle
  imports Main "HOL-Library.Sublist"
begin

section \<open>Results of Go calls\<close>

text \<open>
  A Go function of \<^verbatim>\<open>roots_gen.go\<close> either returns a value, returns a non-nil
  \<^verbatim>\<open>error\<close>, or panics at run time (an index or a slice bound out of range).
  The three are kept apart: a panic is not an error value.
\<close>

type_synonym error = string

datatype 'a result = Return 'a | Error error | Panic

section \<open>The string functions the program calls\<close>

text \<open>
  Go strings are byte sequences. \<^verbatim>\<open>strings.Index(s, substr)\<close> is the index of the
  first instance of \<^verbatim>\<open>substr\<close> in \<^verbatim>\<open>s\<close>, or \<^verbatim>\<open>-1\<close>.
\<close>

fun Index :: "string \<Rightarrow> string \<Rightarrow> int" where
  "Index [] substr = (if substr = [] then 0 else - 1)"
| "Index (c # s) substr =
     (if prefix substr (c # s) then 0
      else (let i = Index s substr in if i < 0 then - 1 else i + 1))"

text \<open>
  The slice expressions \<^verbatim>\<open>s[i:]\<close> and \<^verbatim>\<open>s[:j]\<close>: Go panics when the bound is
  negative or beyond the length.
\<close>

definition slice_from :: "string \<Rightarrow> int \<Rightarrow> string result" where
  "slice_from s i =
     (if i < 0 \<or> int (length s) < i then Panic else Return (drop (nat i) s))"

definition slice_to :: "string \<Rightarrow> int \<Rightarrow> string result" where
  "slice_to s j =
     (if j < 0 \<or> int (length s) < j then Panic else Return (take (nat j) s))"

text \<open>Indexing a slice, \<^verbatim>\<open>values[i]\<close>: a panic when \<^verbatim>\<open>i\<close> is out of range.\<close>

definition at :: "'a list \<Rightarrow> nat \<Rightarrow> 'a result" where
  "at xs i = (if i < length xs then Return (xs ! i) else Panic)"

text \<open>
  \<^verbatim>\<open>regexp.MustCompile("(?s)<tag>(.*?)</tag>").FindAllStringSubmatch(s, -1)\<close>, for
  the three tags the program uses. The match is the leftmost one, the group is lazy and
  \<^verbatim>\<open>(?s)\<close> lets the dot match every byte: a match starts at the first opening tag
  that has a closing tag after it and ends at the first closing tag; the search goes on
  behind it. The program reads only group 1 of every match, which is what the list holds.
\<close>

function FindAllStringSubmatch :: "string \<Rightarrow> string \<Rightarrow> string list" where
  "FindAllStringSubmatch tag s =
     (let i = Index s (''<'' @ tag @ ''>'') in
      if i < 0 then []
      else (let r = drop (nat i + length (''<'' @ tag @ ''>'')) s;
                j = Index r (''</'' @ tag @ ''>'') in
            if j < 0 then []
            else take (nat j) r #
                 FindAllStringSubmatch tag (drop (nat j + length (''</'' @ tag @ ''>'')) r)))"
  by pat_completeness auto
termination
proof (relation "measure (\<lambda>(tag, s). length s)", goal_cases)
  case 1
  show ?case by simp
next
  case (2 tag s i r j)
  have bound: "0 \<le> Index t sub \<Longrightarrow> nat (Index t sub) + length sub \<le> length t" for t sub
  proof (induction t)
    case Nil
    then show ?case by (simp split: if_splits)
  next
    case (Cons c t)
    then show ?case by (auto simp: Let_def split: if_splits dest: prefix_length_le)
  qed
  from 2 have "nat j + length (''</'' @ tag @ ''>'') \<le> length r"
    using bound [of r "''</'' @ tag @ ''>''"] by simp
  moreover from 2 have "length r \<le> length s" by simp
  ultimately show ?case by simp
qed

declare FindAllStringSubmatch.simps [simp del]

text \<open>
  \<^verbatim>\<open>strings.ReplaceAll(s, old, new)\<close>: the non-overlapping instances of
  \<^verbatim>\<open>old\<close>, from the left. Every call of the program has a non-empty \<^verbatim>\<open>old\<close>.
\<close>

function ReplaceAll :: "string \<Rightarrow> string \<Rightarrow> string \<Rightarrow> string" where
  "ReplaceAll [] old new = []"
| "ReplaceAll (c # s) old new =
     (if old \<noteq> [] \<and> prefix old (c # s)
      then new @ ReplaceAll (drop (length old) (c # s)) old new
      else c # ReplaceAll s old new)"
  by pat_completeness auto
termination
  by (relation "measure (\<lambda>(s, old, new). length s)") (auto simp: neq_Nil_conv)

text \<open>
  \<^verbatim>\<open>strings.ToLower\<close> maps letters by the Unicode tables of the Go library; the
  functions below take it as the parameter \<open>lower\<close>. On ASCII text it is this function.
\<close>

definition ascii_ToLower :: "string \<Rightarrow> string" where
  "ascii_ToLower s =
     map (\<lambda>c. let n = (of_char c :: nat) in
               if 65 \<le> n \<and> n \<le> 90 then char_of (n + 32) else c) s"

section \<open>Fetching the certificate identifiers\<close>

record certID =
  name :: string
  fingerprint :: string

text \<open>
  What \<^verbatim>\<open>http.Get\<close> followed by \<^verbatim>\<open>ioutil.ReadAll(resp.Body)\<close> gives: either call
  can return an error, otherwise the body is there.
\<close>

datatype http_response = GetFailed error | ReadFailed error | Body string

text \<open>
  The header row: \<^verbatim>\<open>cols[match[1]] = i\<close> for the \<^verbatim>\<open>i\<close>-th header cell, a later
  cell with the same label overwriting an earlier one.
\<close>

fun header_cols :: "nat \<Rightarrow> string list \<Rightarrow> (string \<rightharpoonup> nat) \<Rightarrow> (string \<rightharpoonup> nat)" where
  "header_cols i [] cols = cols"
| "header_cols i (m # ms) cols = header_cols (Suc i) ms (cols(m \<mapsto> i))"

text \<open>Reading a Go \<^verbatim>\<open>map[string]int\<close>: a missing key reads as \<^verbatim>\<open>0\<close>.\<close>

definition col :: "(string \<rightharpoonup> nat) \<Rightarrow> string \<Rightarrow> nat" where
  "col cols label = (case cols label of None \<Rightarrow> 0 | Some i \<Rightarrow> i)"

definition nl :: string where
  "nl = [CHR 0x0A]"

text \<open>The body of the loop for a data row (\<^verbatim>\<open>i > 0\<close>).\<close>

definition data_row ::
  "(string \<Rightarrow> string) \<Rightarrow> (string \<rightharpoonup> nat) \<Rightarrow> string \<Rightarrow> certID result" where
  "data_row lower cols row =
     (let values = FindAllStringSubmatch ''td'' row in
      case at values (col cols ''Certificate name'') of
        Panic \<Rightarrow> Panic
      | Error e \<Rightarrow> Error e
      | Return n0 \<Rightarrow>
          (let n1 = ReplaceAll n0 ''&nbsp;'' '''' in
           case at values (col cols ''Fingerprint (SHA-256)'') of
             Panic \<Rightarrow> Panic
           | Error e \<Rightarrow> Error e
           | Return f0 \<Rightarrow>
               (let f1 = ReplaceAll f0 ''<br>'' '''';
                    f2 = ReplaceAll f1 nl '''';
                    f3 = ReplaceAll f2 '' '' '''';
                    f4 = ReplaceAll f3 ''&nbsp;'' '''';
                    f5 = lower f4
                in Return \<lparr>name = n1, fingerprint = f5\<rparr>)))"

fun data_rows ::
  "(string \<Rightarrow> string) \<Rightarrow> (string \<rightharpoonup> nat) \<Rightarrow> string list \<Rightarrow> certID list \<Rightarrow>
   certID list result" where
  "data_rows lower cols [] ids = Return ids"
| "data_rows lower cols (row # rows) ids =
     (case data_row lower cols row of
        Panic \<Rightarrow> Panic
      | Error e \<Rightarrow> Error e
      | Return cid \<Rightarrow> data_rows lower cols rows (ids @ [cid]))"

text \<open>
  The loop over the \<^verbatim>\<open><tr>\<close> matches: the first match (\<^verbatim>\<open>i == 0\<close>) fills
  \<^verbatim>\<open>cols\<close>, every later one is a data row.
\<close>

definition table_rows :: "(string \<Rightarrow> string) \<Rightarrow> string \<Rightarrow> certID list result" where
  "table_rows lower text =
     (case FindAllStringSubmatch ''tr'' text of
        [] \<Rightarrow> Return []
      | row0 # rows \<Rightarrow>
          data_rows lower (header_cols 0 (FindAllStringSubmatch ''th'' row0) Map.empty) rows [])"

definition anchor :: string where
  "anchor = ''<div id='' @ [CHR 0x22] @ ''trusted'' @ [CHR 0x22]"

definition fetchCertIDs :: "(string \<Rightarrow> string) \<Rightarrow> http_response \<Rightarrow> certID list result" where
  "fetchCertIDs lower resp =
     (case resp of
        GetFailed e \<Rightarrow> Error e
      | ReadFailed e \<Rightarrow> Error e
      | Body text0 \<Rightarrow>
          (let idx = Index text0 anchor in
           case slice_from text0 idx of
             Panic \<Rightarrow> Panic
           | Error e \<Rightarrow> Error e
           | Return text1 \<Rightarrow>
               (case slice_to text1 (Index text1 ''</div>'') of
                  Panic \<Rightarrow> Panic
                | Error e \<Rightarrow> Error e
                | Return text2 \<Rightarrow> table_rows lower text2)))"

section \<open>The world the program runs in\<close>

record Certificate =
  Raw :: string
  Subject :: string

record pem_Block =
  Type :: string
  Headers :: "(string \<times> string) list"
  Bytes :: string

text \<open>
  One run of the program: its command line, what the network and
  the \<^verbatim>\<open>/usr/bin/security\<close> command answer, and the functions of the Go library
  that the program calls on certificates and source text. \<^verbatim>\<open>os_Args\<close> is the
  command line after the program name; \<^verbatim>\<open>Subject\<close> of a
  certificate is \<^verbatim>\<open>cert.Subject.String()\<close>; \<^verbatim>\<open>Sum256hex\<close> is
  \<^verbatim>\<open>hex.EncodeToString\<close> of \<^verbatim>\<open>sha256.Sum256\<close>; \<^verbatim>\<open>pem_Encode\<close> gives the bytes
  that \<^verbatim>\<open>pem.Encode\<close> writes to the buffer; \<^verbatim>\<open>ioutil_WriteFile\<close> gives the error
  of the write, if any.
\<close>

record env =
  os_Args :: "string list"
  strings_ToLower :: "string \<Rightarrow> string"
  http_Get :: http_response
  cmd_Output :: "error + string"
  pem_Decode :: "string \<Rightarrow> pem_Block option \<times> string"
  x509_ParseCertificate :: "string \<Rightarrow> error + Certificate"
  Sum256hex :: "string \<Rightarrow> string"
  pem_Encode :: "pem_Block \<Rightarrow> error + string"
  format_Source :: "string \<Rightarrow> error + string"
  ioutil_WriteFile :: "string \<Rightarrow> string \<Rightarrow> error option"

text \<open>What a run does to the outside, in order, and how it ends.\<close>

datatype event =
    HTTPGet string
  | ExecCommand string "string list"
  | Stdout string
  | LogPrintf string
  | WriteFile string string

datatype ending = Done | Fatal string | Panicked

fun exit_code :: "ending \<Rightarrow> nat" where
  "exit_code Done = 0"
| "exit_code (Fatal msg) = 1"
| "exit_code Panicked = 2"

section \<open>The local certificate store\<close>

text \<open>
  The loop of \<^verbatim>\<open>sysCerts\<close>. It runs as long as \<^verbatim>\<open>pem.Decode\<close> finds a block in
  what is left of the data; whether it ends depends on \<^verbatim>\<open>pem.Decode\<close> consuming
  input, so a run that does not end has the value \<open>None\<close>.
\<close>

partial_function (option) sysCerts_loop ::
  "env \<Rightarrow> string \<Rightarrow> (string \<rightharpoonup> Certificate) \<Rightarrow> (string \<rightharpoonup> Certificate) option" where
  "sysCerts_loop e data certs =
     (if 0 < length data then
        (case pem_Decode e data of
           (None, rest) \<Rightarrow> Some certs
         | (Some block, rest) \<Rightarrow>
             if Type block \<noteq> ''CERTIFICATE'' \<or> length (Headers block) \<noteq> 0
             then sysCerts_loop e rest certs
             else (case x509_ParseCertificate e (Bytes block) of
                     Inl err \<Rightarrow> sysCerts_loop e rest certs
                   | Inr cert \<Rightarrow>
                       sysCerts_loop e rest (certs(Sum256hex e (Raw cert) \<mapsto> cert))))
      else Some certs)"

declare sysCerts_loop.simps [code]

definition sysCerts :: "env \<Rightarrow> (string \<rightharpoonup> Certificate) result option" where
  "sysCerts e =
     (case cmd_Output e of
        Inl err \<Rightarrow> Some (Error err)
      | Inr data \<Rightarrow> map_option Return (sysCerts_loop e data Map.empty))"

section \<open>Selecting the certificates\<close>

definition warning :: "certID \<Rightarrow> string" where
  "warning cid =
     ''WARNING: cannot find certificate: '' @ name cid @
     '' (fingerprint: '' @ fingerprint cid @ '')'' @ nl"

text \<open>The loop of \<^verbatim>\<open>selectCerts\<close> over the identifiers.\<close>

fun select_loop ::
  "(string \<rightharpoonup> Certificate) \<Rightarrow> certID list \<Rightarrow> Certificate list \<times> event list \<Rightarrow>
   Certificate list \<times> event list" where
  "select_loop scerts [] (certs, tr) = (certs, tr)"
| "select_loop scerts (cid # ids) (certs, tr) =
     (case scerts (fingerprint cid) of
        Some c \<Rightarrow> select_loop scerts ids (certs @ [c], tr)
      | None \<Rightarrow> select_loop scerts ids (certs, tr @ [Stdout (warning cid)]))"

definition security_args :: "string list" where
  "security_args =
     [''find-certificate'', ''-a'', ''-p'',
      ''/System/Library/Keychains/SystemRootCertificates.keychain'']"

definition selectCerts :: "env \<Rightarrow> (event list \<times> Certificate list result) option" where
  "selectCerts e =
     (let tr0 = [HTTPGet ''https://support.apple.com/en-us/HT208125''] in
      case fetchCertIDs (strings_ToLower e) (http_Get e) of
        Panic \<Rightarrow> Some (tr0, Panic)
      | Error err \<Rightarrow> Some (tr0, Error err)
      | Return ids \<Rightarrow>
          (let tr1 = tr0 @ [ExecCommand ''/usr/bin/security'' security_args] in
           case sysCerts e of
             None \<Rightarrow> None
           | Some Panic \<Rightarrow> Some (tr1, Panic)
           | Some (Error err) \<Rightarrow> Some (tr1, Error err)
           | Some (Return scerts) \<Rightarrow>
               (case select_loop scerts ids ([], tr1) of
                  (certs, tr2) \<Rightarrow> Some (tr2, Return certs))))"

section \<open>Writing the bundle\<close>

definition allowedCAs :: "string \<rightharpoonup> bool" where
  "allowedCAs = map_of
     [(''CN=AddTrust Class 1 CA Root,OU=AddTrust TTP Network,O=AddTrust AB,C=SE'', True),
      (''CN=AddTrust External CA Root,OU=AddTrust External TTP Network,O=AddTrust AB,C=SE'', True),
      (''CN=COMODO Certification Authority,O=COMODO CA Limited,L=Salford,ST=Greater Manchester,C=GB'', True),
      (''CN=COMODO ECC Certification Authority,O=COMODO CA Limited,L=Salford,ST=Greater Manchester,C=GB'', True),
      (''CN=COMODO RSA Certification Authority,O=COMODO CA Limited,L=Salford,ST=Greater Manchester,C=GB'', True),
      (''CN=DigiCert Global Root CA,OU=www.digicert.com,O=DigiCert Inc,C=US'', True),
      (''CN=DigiCert Global Root G2,OU=www.digicert.com,O=DigiCert Inc,C=US'', True),
      (''CN=DigiCert Global Root G3,OU=www.digicert.com,O=DigiCert Inc,C=US'', True),
      (''CN=DigiCert High Assurance EV Root CA,OU=www.digicert.com,O=DigiCert Inc,C=US'', True),
      (''CN=DigiCert Trusted Root G4,OU=www.digicert.com,O=DigiCert Inc,C=US'', True),
      (''CN=DST Root CA X3,O=Digital Signature Trust Co.'', True),
      (''CN=DST Root CA X4,O=Digital Signature Trust Co.'', True),
      (''CN=ISRG Root X1,O=Internet Security Research Group,C=US'', True),
      (''CN=GlobalSign Root CA,OU=Root CA,O=GlobalSign nv-sa,C=BE'', True),
      (''CN=GlobalSign,OU=GlobalSign ECC Root CA - R4,O=GlobalSign'', True),
      (''CN=GlobalSign,OU=GlobalSign ECC Root CA - R5,O=GlobalSign'', True),
      (''CN=GlobalSign,OU=GlobalSign Root CA - R2,O=GlobalSign'', True),
      (''CN=GlobalSign,OU=GlobalSign Root CA - R3,O=GlobalSign'', True),
      (''OU=Go Daddy Class 2 Certification Authority,O=The Go Daddy Group'' @ [CHR 0x5C] @ '', Inc.,C=US'', True),
      (''CN=Go Daddy Root Certificate Authority - G2,O=GoDaddy.com'' @ [CHR 0x5C] @ '', Inc.,L=Scottsdale,ST=Arizona,C=US'', True)]"

text \<open>
  The value of \<^verbatim>\<open>*output\<close>. The flag \<^verbatim>\<open>output\<close> is declared with
  \<^verbatim>\<open>flag.String("output", "roots_list.go", "file name to write")\<close>, and
  \<^verbatim>\<open>main\<close> never calls \<^verbatim>\<open>flag.Parse\<close>: the command line is not read, and the
  variable keeps the default.
\<close>

definition output_flag :: string where
  "output_flag = ''roots_list.go''"

definition header :: string where
  "header = nl @ ''package mobile'' @ nl @ nl"

text \<open>
  The loop of \<^verbatim>\<open>main\<close> over the selected certificates: every subject is logged, and
  the certificates whose subject is a key of \<^verbatim>\<open>allowedCAs\<close> are encoded into the
  buffer. An error of \<^verbatim>\<open>pem.Encode\<close> ends the run.
\<close>

fun emit_certs ::
  "env \<Rightarrow> Certificate list \<Rightarrow> string \<times> event list \<Rightarrow>
   (error \<times> event list) + (string \<times> event list)" where
  "emit_certs e [] (buf, tr) = Inr (buf, tr)"
| "emit_certs e (cert # certs) (buf, tr) =
     (let subjectName = Subject cert;
          tr1 = tr @ [LogPrintf subjectName] in
      case allowedCAs subjectName of
        Some ok \<Rightarrow>
          (case pem_Encode e \<lparr>Type = ''CERTIFICATE'', Headers = [], Bytes = Raw cert\<rparr> of
             Inl err \<Rightarrow> Inl (err, tr1)
           | Inr written \<Rightarrow> emit_certs e certs (buf @ written, tr1))
      | None \<Rightarrow> emit_certs e certs (buf, tr1))"

text \<open>The text that \<^verbatim>\<open>main\<close> has in the buffer before the loop.\<close>

definition preamble :: "string \<Rightarrow> string" where
  "preamble out =
     ''// Code generated by roots_gen --output '' @ out @ ''; DO NOT EDIT.'' @ nl @
     header @
     ''const systemRootsPEM = `'' @ nl"

definition main :: "env \<Rightarrow> (event list \<times> ending) option" where
  "main e =
     (case selectCerts e of
        None \<Rightarrow> None
      | Some (tr, Panic) \<Rightarrow> Some (tr, Panicked)
      | Some (tr, Error err) \<Rightarrow> Some (tr, Fatal err)
      | Some (tr, Return certs) \<Rightarrow>
          (case emit_certs e certs (preamble output_flag, tr) of
             Inl (err, tr1) \<Rightarrow> Some (tr1, Fatal err)
           | Inr (buf, tr1) \<Rightarrow>
               (case format_Source e (buf @ ''`'') of
                  Inl err \<Rightarrow> Some (tr1, Fatal (''source format error:'' @ err))
                | Inr source \<Rightarrow>
                    (case ioutil_WriteFile e output_flag source of
                       Some err \<Rightarrow> Some (tr1 @ [WriteFile output_flag source], Fatal err)
                     | None \<Rightarrow> Some (tr1 @ [WriteFile output_flag source], Done)))))"

section \<open>A small world for evaluating the program\<close>

text \<open>
  Stand-ins for the library functions, small enough to evaluate a whole run: a store in
  which every byte is one block (\<^verbatim>\<open>#\<close> a block of another type, \<^verbatim>\<open>!\<close> a block
  that is no certificate), a digest that prefixes \<^verbatim>\<open>f\<close>, and a formatter that
  leaves the text as it is.
\<close>

definition toy_Decode :: "string \<Rightarrow> pem_Block option \<times> string" where
  "toy_Decode data =
     (case data of
        [] \<Rightarrow> (None, [])
      | c # rest \<Rightarrow>
          (Some \<lparr>Type = (if c = CHR ''#'' then ''X509 CRL'' else ''CERTIFICATE''),
                 Headers = [], Bytes = [c]\<rparr>, rest))"

definition toy_subject :: "string \<Rightarrow> string" where
  "toy_subject raw =
     (if raw = ''a'' then ''CN=ISRG Root X1,O=Internet Security Research Group,C=US''
      else if raw = ''b'' then ''CN=DST Root CA X3,O=Digital Signature Trust Co.''
      else ''CN=Example Root '' @ raw)"

definition toy_Parse :: "string \<Rightarrow> error + Certificate" where
  "toy_Parse der =
     (if der = ''!'' then Inl ''x509: malformed certificate''
      else Inr \<lparr>Raw = der, Subject = toy_subject der\<rparr>)"

definition toy_pem :: "pem_Block \<Rightarrow> string" where
  "toy_pem b =
     ''-----BEGIN '' @ Type b @ ''-----'' @ nl @ Bytes b @ nl @
     ''-----END '' @ Type b @ ''-----'' @ nl"

definition toy_Encode :: "pem_Block \<Rightarrow> error + string" where
  "toy_Encode b = Inr (toy_pem b)"

definition toy_page :: string where
  "toy_page =
     ''<html>'' @ anchor @ ''><table>'' @
     ''<tr><th>Certificate name</th><th>Fingerprint (SHA-256)</th></tr>'' @
     ''<tr><td>Root&nbsp;A</td><td>FA</td></tr>'' @
     ''<tr><td>Root C</td><td>F C</td></tr>'' @
     ''<tr><td>Root Z</td><td>FZ</td></tr>'' @
     ''</table></div></html>''"

definition toy_env :: env where
  "toy_env =
     \<lparr>os_Args = [],
      strings_ToLower = ascii_ToLower,
      http_Get = Body toy_page,
      cmd_Output = Inr ''a!b#z'',
      pem_Decode = toy_Decode,
      x509_ParseCertificate = toy_Parse,
      Sum256hex = (\<lambda>raw. ''f'' @ raw),
      pem_Encode = toy_Encode,
      format_Source = Inr,
      ioutil_WriteFile = (\<lambda>file data. None)\<rparr>"

text \<open>A write that fails.\<close>

definition toy_full_disk :: "string \<Rightarrow> string \<Rightarrow> error option" where
  "toy_full_disk file data = Some (''write '' @ file @ '': no space left on device'')"

text \<open>
  A page whose second data row has one cell, while the name is the third column.
\<close>

definition toy_short_page :: string where
  "toy_short_page =
     ''<html>'' @ anchor @ ''><table>'' @
     ''<tr><th>Fingerprint (SHA-256)</th><th>Issuer</th><th>Certificate name</th></tr>'' @
     ''<tr><td>FA</td><td>I</td><td>Root A</td></tr>'' @
     ''<tr><td>FB</td></tr>'' @
     ''</table></div></html>''"

text \<open>
  A page whose header row has the fingerprint label in the first place and no label for
  the certificate name.
\<close>

definition toy_unlabelled_page :: string where
  "toy_unlabelled_page =
     ''<html>'' @ anchor @ ''><table>'' @
     ''<tr><th>Fingerprint (SHA-256)</th><th>Root</th></tr>'' @
     ''<tr><td>AB CD</td><td>Root A</td></tr>'' @
     ''<tr><td>EF</td><td>Root B</td></tr>'' @
     ''</table></div></html>''"

section \<open>The filter of the specification\<close>

text \<open>
  The specification names a Subject Allow-List Filter. In the program it is the test
  inside the loop of \<^verbatim>\<open>main\<close>; as a function on certificate sequences, in the
  specification's words, it keeps the certificates whose subject is in the allow-list.
\<close>

definition allowlist_filter :: "Certificate list \<Rightarrow> Certificate list" where
  "allowlist_filter certs = filter (\<lambda>c. allowedCAs (Subject c) \<noteq> None) certs"

text \<open>The block that the loop of \<^verbatim>\<open>main\<close> encodes for a certificate.\<close>

definition certificate_block :: "Certificate \<Rightarrow> pem_Block" where
  "certificate_block cert = \<lparr>Type = ''CERTIFICATE'', Headers = [], Bytes = Raw cert\<rparr>"

section \<open>The blocks of the store, one by one\<close>

text \<open>
  Two readings of the loop of \<^verbatim>\<open>sysCerts\<close>, to say what the index holds. The first
  is the sequence of blocks that the successive calls of \<^verbatim>\<open>pem.Decode\<close> return, until
  the data is used up or no block is found. The second is what one block adds to the
  index: nothing when its type is not \<^verbatim>\<open>CERTIFICATE\<close>, when it has headers, or when
  \<^verbatim>\<open>x509.ParseCertificate\<close> fails on its bytes; otherwise the certificate, under its
  fingerprint.
\<close>

partial_function (option) pem_blocks :: "env \<Rightarrow> string \<Rightarrow> pem_Block list option" where
  "pem_blocks e data =
     (if 0 < length data then
        (case pem_Decode e data of
           (None, rest) \<Rightarrow> Some []
         | (Some block, rest) \<Rightarrow>
             Option.bind (pem_blocks e rest) (\<lambda>blocks. Some (block # blocks)))
      else Some [])"

declare pem_blocks.simps [code]

definition block_entry :: "env \<Rightarrow> pem_Block \<Rightarrow> (string \<times> Certificate) option" where
  "block_entry e block =
     (if Type block \<noteq> ''CERTIFICATE'' \<or> length (Headers block) \<noteq> 0 then None
      else (case x509_ParseCertificate e (Bytes block) of
              Inl err \<Rightarrow> None
            | Inr cert \<Rightarrow> Some (Sum256hex e (Raw cert), cert)))"

section \<open>The decoder of the Go library\<close>

text \<open>
  \<^verbatim>\<open>pem.Decode\<close> is a parameter of a run. To follow a byte stream through
  \<^verbatim>\<open>sysCerts\<close>, this section writes out \<^verbatim>\<open>encoding/pem\<close> of the Go library as the
  releases with \<^verbatim>\<open>strings.ReplaceAll\<close> have it: \<^verbatim>\<open>getLine\<close>,
  \<^verbatim>\<open>removeSpacesAndTabs\<close>, the header loop and \<^verbatim>\<open>Decode\<close> with its restart
  \<^verbatim>\<open>decodeError\<close>, and \<^verbatim>\<open>base64.StdEncoding\<close> for the body of a block.
\<close>

definition pemStart :: string where
  "pemStart = nl @ ''-----BEGIN ''"

definition pemEnd :: string where
  "pemEnd = nl @ ''-----END ''"

definition pemEndOfLine :: string where
  "pemEndOfLine = ''-----''"

text \<open>\<^verbatim>\<open>bytes.TrimRight(s, " \t")\<close>.\<close>

definition TrimRight :: "string \<Rightarrow> string" where
  "TrimRight s = rev (dropWhile (\<lambda>c. c = CHR '' '' \<or> c = CHR 0x09) (rev s))"

text \<open>
  \<^verbatim>\<open>getLine\<close>: the first line without its line break (\<^verbatim>\<open>\n\<close> or \<^verbatim>\<open>\r\n\<close>) and
  without trailing spaces and tabs, and what follows the line.
\<close>

definition getLine :: "string \<Rightarrow> string \<times> string" where
  "getLine data =
     (let i = Index data nl in
      if i < 0 then (TrimRight data, [])
      else (let line = take (nat i) data in
            (TrimRight (if line \<noteq> [] \<and> last line = CHR 0x0D then butlast line else line),
             drop (nat i + 1) data)))"

text \<open>
  \<^verbatim>\<open>bytes.TrimSpace\<close> on the ASCII white space (it is applied to header keys and
  values, which the program never reads).
\<close>

definition TrimSpace :: "string \<Rightarrow> string" where
  "TrimSpace s =
     rev (dropWhile (\<lambda>c. c \<in> set [CHR '' '', CHR 0x09, CHR 0x0A, CHR 0x0B, CHR 0x0C, CHR 0x0D])
       (rev (dropWhile (\<lambda>c. c \<in> set [CHR '' '', CHR 0x09, CHR 0x0A, CHR 0x0B, CHR 0x0C, CHR 0x0D]) s)))"

text \<open>
  The header loop of \<^verbatim>\<open>Decode\<close>: lines with a colon are headers, a later value for a
  key replacing an earlier one; the loop ends at the first line without a colon, and
  \<open>None\<close> is the data running out before that.
\<close>

function read_headers ::
  "string \<Rightarrow> (string \<times> string) list \<Rightarrow> ((string \<times> string) list \<times> string) option" where
  "read_headers rest hdrs =
     (if length rest = 0 then None
      else (let i = Index (fst (getLine rest)) '':'' in
            if i < 0 then Some (hdrs, rest)
            else read_headers (snd (getLine rest))
                   (filter (\<lambda>kv. fst kv \<noteq> TrimSpace (take (nat i) (fst (getLine rest)))) hdrs @
                    [(TrimSpace (take (nat i) (fst (getLine rest))),
                      TrimSpace (drop (nat i + 1) (fst (getLine rest))))])))"
  by pat_completeness auto
termination
proof (relation "measure (\<lambda>(rest, hdrs). length rest)", goal_cases)
  case 1
  show ?case by simp
next
  case (2 rest hdrs i)
  then show ?case
    by (cases rest) (auto simp: getLine_def Let_def)
qed

declare read_headers.simps [simp del]

text \<open>\<^verbatim>\<open>base64.StdEncoding.Decode\<close>: line breaks are passed over, padding is required.\<close>

definition b64_value :: "char \<Rightarrow> nat option" where
  "b64_value c =
     (let n = (of_char c :: nat) in
      if 65 \<le> n \<and> n \<le> 90 then Some (n - 65)
      else if 97 \<le> n \<and> n \<le> 122 then Some (n - 71)
      else if 48 \<le> n \<and> n \<le> 57 then Some (n + 4)
      else if c = CHR ''+'' then Some 62
      else if c = CHR ''/'' then Some 63
      else None)"

fun base64_quanta :: "string \<Rightarrow> string option" where
  "base64_quanta [] = Some []"
| "base64_quanta [a, b, c, d] =
     (case (b64_value a, b64_value b) of
        (Some x, Some y) \<Rightarrow>
          (if c = CHR ''='' \<and> d = CHR ''='' then Some [char_of ((x * 64 + y) div 16)]
           else (case b64_value c of
                   None \<Rightarrow> None
                 | Some z \<Rightarrow>
                     (if d = CHR ''=''
                      then Some [char_of (((x * 64 + y) * 64 + z) div 1024),
                                 char_of (((x * 64 + y) * 64 + z) div 4)]
                      else (case b64_value d of
                              None \<Rightarrow> None
                            | Some w \<Rightarrow>
                                Some [char_of ((((x * 64 + y) * 64 + z) * 64 + w) div 65536),
                                      char_of ((((x * 64 + y) * 64 + z) * 64 + w) div 256),
                                      char_of ((((x * 64 + y) * 64 + z) * 64 + w))]))))
      | _ \<Rightarrow> None)"
| "base64_quanta (a # b # c # d # rest) =
     (case (b64_value a, b64_value b, b64_value c, b64_value d) of
        (Some x, Some y, Some z, Some w) \<Rightarrow>
          (case base64_quanta rest of
             None \<Rightarrow> None
           | Some bytes \<Rightarrow>
               Some (char_of ((((x * 64 + y) * 64 + z) * 64 + w) div 65536) #
                     char_of ((((x * 64 + y) * 64 + z) * 64 + w) div 256) #
                     char_of ((((x * 64 + y) * 64 + z) * 64 + w)) # bytes))
      | _ \<Rightarrow> None)"
| "base64_quanta s = None"

definition base64_Decode :: "string \<Rightarrow> string option" where
  "base64_Decode src = base64_quanta (filter (\<lambda>c. c \<noteq> CHR 0x0A \<and> c \<noteq> CHR 0x0D) src)"

definition removeSpacesAndTabs :: "string \<Rightarrow> string" where
  "removeSpacesAndTabs data = filter (\<lambda>c. c \<noteq> CHR '' '' \<and> c \<noteq> CHR 0x09) data"

text \<open>
  One pass of \<^verbatim>\<open>Decode\<close> over the data, up to its \<^verbatim>\<open>return\<close>: no
  \<^verbatim>\<open>-----BEGIN\<close> at the start of the data or of a line (\<open>NoStart\<close>), the data
  running out in the header loop (\<open>RanOut\<close>), a call of \<^verbatim>\<open>decodeError(data, rest)\<close>
  (\<open>Restart rest\<close>), or a block and the data behind it.
\<close>

datatype pass = NoStart | RanOut | Restart string | Block pem_Block string

definition Decode_pass :: "string \<Rightarrow> pass" where
  "Decode_pass data =
     (case (if prefix (tl pemStart) data then Some (drop (length pemStart - 1) data)
            else (let i = Index data pemStart in
                  if 0 \<le> i then Some (drop (nat i + length pemStart) data) else None)) of
        None \<Rightarrow> NoStart
      | Some rest0 \<Rightarrow>
          (let typeLine0 = fst (getLine rest0); rest1 = snd (getLine rest0) in
           if \<not> suffix pemEndOfLine typeLine0 then Restart rest1
           else (let typeLine = take (length typeLine0 - length pemEndOfLine) typeLine0 in
                 case read_headers rest1 [] of
                   None \<Rightarrow> RanOut
                 | Some (headers, rest) \<Rightarrow>
                     (let endIndex =
                            (if length headers = 0 \<and> prefix (tl pemEnd) rest then 0
                             else Index rest pemEnd);
                          endTrailerIndex =
                            (if length headers = 0 \<and> prefix (tl pemEnd) rest
                             then int (length pemEnd) - 1
                             else Index rest pemEnd + int (length pemEnd)) in
                      if endIndex < 0 then Restart rest
                      else (let endTrailer0 = drop (nat endTrailerIndex) rest;
                                endTrailerLen = length typeLine + length pemEndOfLine in
                            if length endTrailer0 < endTrailerLen then Restart rest
                            else (let restOfEndLine = drop endTrailerLen endTrailer0;
                                      endTrailer = take endTrailerLen endTrailer0 in
                                  if \<not> prefix typeLine endTrailer \<or>
                                     \<not> suffix pemEndOfLine endTrailer then Restart rest
                                  else if length (fst (getLine restOfEndLine)) \<noteq> 0
                                  then Restart rest
                                  else (case base64_Decode
                                               (removeSpacesAndTabs (take (nat endIndex) rest)) of
                                          None \<Rightarrow> Restart rest
                                        | Some bytes \<Rightarrow>
                                            Block \<lparr>Type = typeLine, Headers = headers,
                                                   Bytes = bytes\<rparr>
                                              (snd (getLine (drop
                                                 (nat endIndex + length pemEnd - 1) rest))))))))))"

text \<open>
  \<^verbatim>\<open>Decode\<close>: \<^verbatim>\<open>decodeError(data, rest)\<close> decodes again from \<^verbatim>\<open>rest\<close>, and gives
  back the whole data when that finds no block.
\<close>

function Decode :: "string \<Rightarrow> pem_Block option \<times> string" where
  "Decode data =
     (case Decode_pass data of
        NoStart \<Rightarrow> (None, data)
      | RanOut \<Rightarrow> (None, data)
      | Block p rest \<Rightarrow> (Some p, rest)
      | Restart rest \<Rightarrow>
          (case Decode rest of
             (None, r) \<Rightarrow> (None, data)
           | (Some p, r) \<Rightarrow> (Some p, r)))"
  by pat_completeness auto
termination
proof (relation "measure length", goal_cases)
  case 1
  show ?case by simp
next
  case (2 data rest)
  have line: "length (snd (getLine d)) \<le> length d" for d
    by (simp add: getLine_def Let_def)
  have headers: "read_headers r h = Some (h', r') \<Longrightarrow> length r' \<le> length r" for r h h' r'
  proof (induction r h rule: read_headers.induct)
    case (1 rest hdrs)
    show ?case
    proof (cases "Index (fst (getLine rest)) '':'' < 0")
      case True
      with 1(2) show ?thesis
        by (subst (asm) read_headers.simps) (auto simp: Let_def split: if_splits)
    next
      case False
      with 1(2) have ne: "length rest \<noteq> 0"
        and next_line: "read_headers (snd (getLine rest))
           (filter (\<lambda>kv. fst kv \<noteq>
              TrimSpace (take (nat (Index (fst (getLine rest)) '':'')) (fst (getLine rest)))) hdrs @
            [(TrimSpace (take (nat (Index (fst (getLine rest)) '':'')) (fst (getLine rest))),
              TrimSpace (drop (nat (Index (fst (getLine rest)) '':'') + 1) (fst (getLine rest))))])
           = Some (h', r')"
        by (subst (asm) read_headers.simps, auto simp: Let_def split: if_splits)+
      from "1.IH" [OF ne refl False next_line] line [of rest] show ?thesis
        by simp
    qed
  qed
  have bound: "0 \<le> Index t sub \<Longrightarrow> nat (Index t sub) + length sub \<le> length t" for t sub
  proof (induction t)
    case Nil
    then show ?case by (simp split: if_splits)
  next
    case (Cons c t)
    then show ?case by (auto simp: Let_def split: if_splits dest: prefix_length_le)
  qed
  have start: "length rest0 < length data"
    if "(if prefix (tl pemStart) data then Some (drop (length pemStart - 1) data)
         else (let i = Index data pemStart in
               if 0 \<le> i then Some (drop (nat i + length pemStart) data) else None)) = Some rest0"
    for rest0
  proof (cases "prefix (tl pemStart) data")
    case True
    then have "length (tl pemStart) \<le> length data"
      by (rule prefix_length_le)
    with True that show ?thesis
      by (auto simp: pemStart_def nl_def)
  next
    case False
    with that have "0 \<le> Index data pemStart" and "rest0 = drop (nat (Index data pemStart) + length pemStart) data"
      by (auto simp: Let_def split: if_splits)
    with bound [of data pemStart] show ?thesis
      by (auto simp: pemStart_def nl_def)
  qed
  from 2 obtain rest0 where
    s: "(if prefix (tl pemStart) data then Some (drop (length pemStart - 1) data)
         else (let i = Index data pemStart in
               if 0 \<le> i then Some (drop (nat i + length pemStart) data) else None)) = Some rest0"
    and r: "rest = snd (getLine rest0) \<or>
            (\<exists>h. read_headers (snd (getLine rest0)) [] = Some (h, rest))"
    unfolding Decode_pass_def Let_def
    by (auto split: option.splits if_splits prod.splits)
  from r headers line [of rest0] have "length rest \<le> length rest0"
    by force
  with start [OF s] show ?case
    by simp
qed

declare Decode.simps [simp del]

text \<open>
  Stores in PEM text for the small world: a block of a type with a base64 body, and
  three stores. \<^verbatim>\<open>YQ==\<close>, \<^verbatim>\<open>Yg==\<close>, \<^verbatim>\<open>eg==\<close> and \<^verbatim>\<open>IQ==\<close> are the bytes
  \<^verbatim>\<open>a\<close>, \<^verbatim>\<open>b\<close>, \<^verbatim>\<open>z\<close> and \<^verbatim>\<open>!\<close>. In the second store the block of
  \<^verbatim>\<open>b\<close> is cut off in the middle of its first body line.
\<close>

definition pem_lines :: "string \<Rightarrow> string \<Rightarrow> string" where
  "pem_lines ty body =
     ''-----BEGIN '' @ ty @ ''-----'' @ nl @ body @ nl @ ''-----END '' @ ty @ ''-----'' @ nl"

definition store_whole :: string where
  "store_whole = pem_lines ''CERTIFICATE'' ''YQ=='' @ pem_lines ''CERTIFICATE'' ''eg==''"

definition store_cut :: string where
  "store_cut =
     pem_lines ''CERTIFICATE'' ''YQ=='' @
     ''-----BEGIN CERTIFICATE-----'' @ nl @ ''Yg'' @
     pem_lines ''CERTIFICATE'' ''eg==''"

definition store_mixed :: string where
  "store_mixed =
     pem_lines ''CERTIFICATE'' ''YQ=='' @
     pem_lines ''CERTIFICATE'' ''IQ=='' @
     pem_lines ''X509 CRL'' ''Yg=='' @
     pem_lines ''CERTIFICATE'' ''eg==''"

text \<open>What \<^verbatim>\<open>sysCerts\<close> has under some fingerprints, when it returns an index.\<close>

definition lookups :: "env \<Rightarrow> string list \<Rightarrow> Certificate option list option" where
  "lookups e ks = (case sysCerts e of Some (Return certs) \<Rightarrow> Some (map certs ks) | _ \<Rightarrow> None)"

section \<open>Reading a run\<close>

text \<open>
  The events of a run that write a file, the contents written, and the first line of a
  text.
\<close>

fun is_write :: "event \<Rightarrow> bool" where
  "is_write (WriteFile file data) = True"
| "is_write ev = False"

fun artifacts :: "event list \<Rightarrow> string list" where
  "artifacts [] = []"
| "artifacts (WriteFile file data # tr) = data # artifacts tr"
| "artifacts (ev # tr) = artifacts tr"

definition first_line :: "string \<Rightarrow> string" where
  "first_line s = takeWhile (\<lambda>c. c \<noteq> CHR 0x0A) s"

section \<open>Facts about the string functions\<close>

lemma Index_ge: "- 1 \<le> Index s sub"
  by (induction s) (auto simp: Let_def)

lemma Index_bound: "0 \<le> Index s sub \<Longrightarrow> nat (Index s sub) + length sub \<le> length s"
  by (induction s) (auto simp: Let_def split: if_splits dest: prefix_length_le)

text \<open>\<^verbatim>\<open>strings.Index\<close> is negative exactly when the text does not occur.\<close>

lemma Index_neg_iff: "Index s sub < 0 \<longleftrightarrow> \<not> sublist sub s"
proof (induction s)
  case Nil
  show ?case by simp
next
  case (Cons c s)
  have "- 1 \<le> Index s sub" by (rule Index_ge)
  with Cons show ?case
    by (auto simp: Let_def sublist_Cons_right)
qed

lemma slice_from_neg: "i < 0 \<Longrightarrow> slice_from s i = Panic"
  by (simp add: slice_from_def)

lemma slice_no_error: "slice_from s i \<noteq> Error err" "slice_to s i \<noteq> Error err"
  by (simp_all add: slice_from_def slice_to_def)

section \<open>Facts about the extraction of the table\<close>

lemma data_row_no_error: "data_row lower cols row \<noteq> Error err"
  by (auto simp: data_row_def Let_def at_def split: result.splits)

lemma data_rows_no_error: "data_rows lower cols rows ids \<noteq> Error err"
  by (induction rows arbitrary: ids) (auto simp: data_row_no_error split: result.splits)

lemma table_rows_no_error: "table_rows lower text \<noteq> Error err"
  by (auto simp: table_rows_def data_rows_no_error split: list.splits)

lemma fetch_body_no_error: "fetchCertIDs lower (Body text) \<noteq> Error err"
  by (auto simp: fetchCertIDs_def Let_def slice_no_error table_rows_no_error
      split: result.splits)

lemma data_rows_panic:
  "row \<in> set rows \<Longrightarrow> data_row lower cols row = Panic \<Longrightarrow> data_rows lower cols rows ids = Panic"
proof (induction rows arbitrary: ids)
  case Nil
  then show ?case by simp
next
  case (Cons r rows)
  then show ?case
    by (cases "data_row lower cols r") (auto simp: data_row_no_error)
qed

lemma data_row_short:
  "length (FindAllStringSubmatch ''td'' row) \<le> col cols ''Certificate name'' \<or>
   length (FindAllStringSubmatch ''td'' row) \<le> col cols ''Fingerprint (SHA-256)''
   \<Longrightarrow> data_row lower cols row = Panic"
  by (auto simp: data_row_def Let_def at_def)

lemma data_rows_eq:
  "data_rows lower cols rows ids =
     (if \<forall>row\<in>set rows.
           col cols ''Certificate name'' < length (FindAllStringSubmatch ''td'' row) \<and>
           col cols ''Fingerprint (SHA-256)'' < length (FindAllStringSubmatch ''td'' row)
      then Return (ids @ map (\<lambda>row.
             \<lparr>name = ReplaceAll
                (FindAllStringSubmatch ''td'' row ! col cols ''Certificate name'') ''&nbsp;'' '''',
              fingerprint = lower (ReplaceAll (ReplaceAll (ReplaceAll (ReplaceAll
                (FindAllStringSubmatch ''td'' row ! col cols ''Fingerprint (SHA-256)'')
                ''<br>'' '''') nl '''') '' '' '''') ''&nbsp;'' '''')\<rparr>) rows)
      else Panic)"
proof (induction rows arbitrary: ids)
  case Nil
  show ?case by simp
next
  case (Cons row rows)
  show ?case
  proof (cases "col cols ''Certificate name'' < length (FindAllStringSubmatch ''td'' row) \<and>
      col cols ''Fingerprint (SHA-256)'' < length (FindAllStringSubmatch ''td'' row)")
    case True
    then have "data_row lower cols row =
        Return \<lparr>name = ReplaceAll
                (FindAllStringSubmatch ''td'' row ! col cols ''Certificate name'') ''&nbsp;'' '''',
              fingerprint = lower (ReplaceAll (ReplaceAll (ReplaceAll (ReplaceAll
                (FindAllStringSubmatch ''td'' row ! col cols ''Fingerprint (SHA-256)'')
                ''<br>'' '''') nl '''') '' '' '''') ''&nbsp;'' '''')\<rparr>"
      by (simp add: data_row_def Let_def at_def)
    with True Cons.IH show ?thesis
      by simp
  next
    case False
    then have "data_row lower cols row = Panic"
      by (auto simp: data_row_def Let_def at_def)
    with False show ?thesis
      by auto
  qed
qed

lemma header_cols_other:
  "label \<notin> set ms \<Longrightarrow> header_cols i ms cols label = cols label"
  by (induction i ms cols rule: header_cols.induct) auto

lemma col_missing: "label \<notin> set ms \<Longrightarrow> col (header_cols 0 ms Map.empty) label = 0"
  by (simp add: col_def header_cols_other)

lemma main_fetch_panic:
  "fetchCertIDs (strings_ToLower e) (http_Get e) = Panic \<Longrightarrow>
   main e = Some ([HTTPGet ''https://support.apple.com/en-us/HT208125''], Panicked)"
  by (simp add: main_def selectCerts_def)

section \<open>Facts about the two loops over certificates\<close>

lemma select_loop_eq:
  "select_loop scerts ids (certs, tr) =
     (certs @ List.map_filter (\<lambda>cid. scerts (fingerprint cid)) ids,
      tr @ map (\<lambda>cid. Stdout (warning cid))
             (filter (\<lambda>cid. scerts (fingerprint cid) = None) ids))"
  by (induction ids arbitrary: certs tr) (auto simp: map_filter_simps split: option.splits)

lemma hits_and_misses:
  "length (List.map_filter (\<lambda>cid. scerts (fingerprint cid)) ids) +
   length (filter (\<lambda>cid. scerts (fingerprint cid) = None) ids) = length ids"
  by (induction ids) (auto simp: map_filter_simps split: option.splits)

lemma hit_fingerprints:
  assumes "\<forall>k c. scerts k = Some c \<longrightarrow> digest (Raw c) = k"
  shows "map (\<lambda>c. digest (Raw c)) (List.map_filter (\<lambda>cid. scerts (fingerprint cid)) ids) =
         filter (\<lambda>k. scerts k \<noteq> None) (map fingerprint ids)"
  using assms by (induction ids) (auto simp: map_filter_simps split: option.splits)

lemma emit_certs_encoded:
  assumes "\<forall>b. pem_Encode e b = Inr (enc b)"
  shows "emit_certs e certs (buf, tr) =
         Inr (buf @ concat (map (\<lambda>c. enc (certificate_block c)) (allowlist_filter certs)),
              tr @ map (\<lambda>c. LogPrintf (Subject c)) certs)"
  using assms
  by (induction certs arbitrary: buf tr)
     (auto simp: allowlist_filter_def certificate_block_def Let_def split: option.splits)

lemma emit_certs_filtered:
  "map_sum fst fst (emit_certs e (allowlist_filter certs) (buf, tr)) =
   map_sum fst fst (emit_certs e certs (buf, tr'))"
proof (induction certs arbitrary: buf tr tr')
  case Nil
  show ?case by (simp add: allowlist_filter_def)
next
  case (Cons c certs)
  from Cons [unfolded allowlist_filter_def] show ?case
    by (auto simp: allowlist_filter_def Let_def split: option.splits sum.splits)
qed

section \<open>Facts about the loop over the store\<close>

lemma block_entry_None:
  "block_entry e b = None \<longleftrightarrow>
   Type b \<noteq> ''CERTIFICATE'' \<or> Headers b \<noteq> [] \<or>
   (\<exists>err. x509_ParseCertificate e (Bytes b) = Inl err)"
  by (auto simp: block_entry_def split: sum.splits)

lemma sysCerts_loop_step:
  assumes "data \<noteq> []" and "pem_Decode e data = (Some b, rest)"
  shows "sysCerts_loop e data certs =
         sysCerts_loop e rest
           (case block_entry e b of None \<Rightarrow> certs | Some (k, c) \<Rightarrow> certs(k \<mapsto> c))"
  using assms
  by (subst sysCerts_loop.simps) (auto simp: block_entry_def split: sum.splits)

lemma sysCerts_loop_stop:
  "data = [] \<or> fst (pem_Decode e data) = None \<Longrightarrow> sysCerts_loop e data certs = Some certs"
  by (subst sysCerts_loop.simps) (auto split: prod.splits option.splits)

lemma pem_blocks_stop:
  "data = [] \<or> fst (pem_Decode e data) = None \<Longrightarrow> pem_blocks e data = Some []"
  by (subst pem_blocks.simps) (auto split: prod.splits option.splits)

lemma pem_blocks_step:
  assumes "data \<noteq> []" and "pem_Decode e data = (Some b, rest)"
  shows "pem_blocks e data = map_option ((#) b) (pem_blocks e rest)"
  using assms
  by (subst pem_blocks.simps) (cases "pem_blocks e rest"; simp)

text \<open>
  When \<^verbatim>\<open>pem.Decode\<close> consumes input with every block it returns, the loop ends, and
  the index is the association list of the entries of the blocks, a later entry winning
  over an earlier one with the same fingerprint.
\<close>

lemma sysCerts_loop_index:
  assumes "\<forall>d b r. pem_Decode e d = (Some b, r) \<longrightarrow> length r < length d"
  shows "\<exists>bs. pem_blocks e data = Some bs \<and>
           (\<forall>certs. sysCerts_loop e data certs =
              Some (certs ++ map_of (rev (List.map_filter (block_entry e) bs))))"
proof (induction data rule: length_induct)
  case (1 data)
  show ?case
  proof (cases "data = [] \<or> fst (pem_Decode e data) = None")
    case True
    then show ?thesis
      by (simp add: sysCerts_loop_stop pem_blocks_stop map_filter_simps)
  next
    case False
    then obtain b rest where dec: "pem_Decode e data = (Some b, rest)" and ne: "data \<noteq> []"
      by (cases "pem_Decode e data") auto
    with assms have "length rest < length data"
      by blast
    with 1 obtain bs where bs: "pem_blocks e rest = Some bs"
      and loop: "\<And>certs'. sysCerts_loop e rest certs' =
                   Some (certs' ++ map_of (rev (List.map_filter (block_entry e) bs)))"
      by blast
    from ne dec bs have "pem_blocks e data = Some (b # bs)"
      by (simp add: pem_blocks_step)
    moreover have "sysCerts_loop e data certs =
        Some (certs ++ map_of (rev (List.map_filter (block_entry e) (b # bs))))" for certs
      by (cases "block_entry e b")
         (auto simp: sysCerts_loop_step [OF ne dec] loop map_filter_simps)
    ultimately show ?thesis
      by blast
  qed
qed

lemma entries_set:
  "(k, c) \<in> set (List.map_filter (block_entry e) bs) \<longleftrightarrow>
   (\<exists>b\<in>set bs. block_entry e b = Some (k, c))"
  by (induction bs) (auto split: option.splits)

lemma entries_skip:
  "block_entry e bad = None \<Longrightarrow>
   List.map_filter (block_entry e) (bs1 @ bad # bs2) =
   List.map_filter (block_entry e) (bs1 @ bs2)"
  by (induction bs1) (auto split: option.splits)

lemma entries_dom:
  "dom (map_of (rev (List.map_filter (block_entry e) bs))) =
   {k. \<exists>b\<in>set bs. \<exists>c. block_entry e b = Some (k, c)}"
proof -
  have "dom (map_of (rev (List.map_filter (block_entry e) bs))) =
        fst ` set (List.map_filter (block_entry e) bs)"
    by (simp add: dom_map_of_conv_image_fst)
  also have "\<dots> = {k. \<exists>c. (k, c) \<in> set (List.map_filter (block_entry e) bs)}"
    by force
  finally show ?thesis
    by (simp add: entries_set) blast
qed

lemma entries_distinct:
  assumes "distinct (map fst (List.map_filter (block_entry e) bs))"
    and "b \<in> set bs" and "block_entry e b = Some (k, c)"
  shows "map_of (rev (List.map_filter (block_entry e) bs)) k = Some c"
proof -
  from assms(2,3) have "(k, c) \<in> set (rev (List.map_filter (block_entry e) bs))"
    by (auto simp: entries_set)
  moreover from assms(1) have "distinct (map fst (rev (List.map_filter (block_entry e) bs)))"
    by (simp add: rev_map [symmetric])
  ultimately show ?thesis
    by simp
qed

section \<open>Facts about the decoder of the Go library\<close>

lemma getLine_shorter: "length (snd (getLine d)) \<le> length d"
  by (simp add: getLine_def Let_def)

lemma read_headers_shorter:
  "read_headers r h = Some (h', r') \<Longrightarrow> length r' \<le> length r"
proof (induction r h rule: read_headers.induct)
  case (1 rest hdrs)
  show ?case
  proof (cases "Index (fst (getLine rest)) '':'' < 0")
    case True
    with 1(2) show ?thesis
      by (subst (asm) read_headers.simps) (auto simp: Let_def split: if_splits)
  next
    case False
    with 1(2) have ne: "length rest \<noteq> 0"
      and next_line: "read_headers (snd (getLine rest))
         (filter (\<lambda>kv. fst kv \<noteq>
            TrimSpace (take (nat (Index (fst (getLine rest)) '':'')) (fst (getLine rest)))) hdrs @
          [(TrimSpace (take (nat (Index (fst (getLine rest)) '':'')) (fst (getLine rest))),
            TrimSpace (drop (nat (Index (fst (getLine rest)) '':'') + 1) (fst (getLine rest))))])
         = Some (h', r')"
      by (subst (asm) read_headers.simps, auto simp: Let_def split: if_splits)+
    from "1.IH" [OF ne refl False next_line] getLine_shorter [of rest] show ?thesis
      by simp
  qed
qed

lemma Decode_start_shorter:
  assumes "(if prefix (tl pemStart) data then Some (drop (length pemStart - 1) data)
            else (let i = Index data pemStart in
                  if 0 \<le> i then Some (drop (nat i + length pemStart) data) else None)) = Some rest0"
  shows "length rest0 < length data"
proof (cases "prefix (tl pemStart) data")
  case True
  then have "length (tl pemStart) \<le> length data"
    by (rule prefix_length_le)
  with True assms show ?thesis
    by (auto simp: pemStart_def nl_def)
next
  case False
  with assms have "0 \<le> Index data pemStart"
    and "rest0 = drop (nat (Index data pemStart) + length pemStart) data"
    by (auto simp: Let_def split: if_splits)
  with Index_bound [of data pemStart] show ?thesis
    by (auto simp: pemStart_def nl_def)
qed

lemma Decode_pass_shorter:
  assumes "Decode_pass data = Restart rest \<or> Decode_pass data = Block p rest"
  shows "length rest < length data"
proof -
  from assms obtain rest0 where
    s: "(if prefix (tl pemStart) data then Some (drop (length pemStart - 1) data)
         else (let i = Index data pemStart in
               if 0 \<le> i then Some (drop (nat i + length pemStart) data) else None)) = Some rest0"
    and r: "rest = snd (getLine rest0) \<or>
            (\<exists>h. read_headers (snd (getLine rest0)) [] = Some (h, rest)) \<or>
            (\<exists>h r2 k. read_headers (snd (getLine rest0)) [] = Some (h, r2) \<and>
               rest = snd (getLine (drop k r2)))"
    unfolding Decode_pass_def Let_def
    by (auto split: option.splits if_splits prod.splits)
  from r have "length rest \<le> length rest0"
  proof (elim disjE exE conjE)
    assume "rest = snd (getLine rest0)"
    then show ?thesis
      by (simp add: getLine_shorter)
  next
    fix h assume "read_headers (snd (getLine rest0)) [] = Some (h, rest)"
    from read_headers_shorter [OF this] getLine_shorter [of rest0] show ?thesis
      by simp
  next
    fix h r2 k
    assume h: "read_headers (snd (getLine rest0)) [] = Some (h, r2)"
      and "rest = snd (getLine (drop k r2))"
    with getLine_shorter [of "drop k r2"] have "length rest \<le> length r2"
      by simp
    with read_headers_shorter [OF h] getLine_shorter [of rest0] show ?thesis
      by simp
  qed
  with Decode_start_shorter [OF s] show ?thesis
    by simp
qed

text \<open>The decoder of the library consumes input with every block it returns.\<close>

lemma Decode_consumes: "Decode d = (Some b, r) \<Longrightarrow> length r < length d"
proof (induction d arbitrary: b r rule: Decode.induct)
  case (1 data)
  show ?case
  proof (cases "Decode_pass data")
    case NoStart
    with 1(2) show ?thesis
      by (subst (asm) Decode.simps) simp
  next
    case RanOut
    with 1(2) show ?thesis
      by (subst (asm) Decode.simps) simp
  next
    case (Restart rest)
    with 1(2) have "Decode rest = (Some b, r)"
      by (subst (asm) Decode.simps) (auto split: prod.splits option.splits)
    from "1.IH" [OF Restart this] Decode_pass_shorter [of data rest] Restart show ?thesis
      by simp
  next
    case (Block p rest)
    with 1(2) have "r = rest"
      by (subst (asm) Decode.simps) simp
    with Decode_pass_shorter [of data rest p] Block show ?thesis
      by simp
  qed
qed

section \<open>Facts about a whole run\<close>

lemma select_loop_no_write:
  "\<forall>ev\<in>set tr. \<not> is_write ev \<Longrightarrow> \<forall>ev\<in>set (snd (select_loop scerts ids (certs, tr))). \<not> is_write ev"
  by (auto simp: select_loop_eq)

lemma selectCerts_no_write:
  assumes "selectCerts e = Some (tr, r)"
  shows "\<forall>ev\<in>set tr. \<not> is_write ev"
proof (cases "fetchCertIDs (strings_ToLower e) (http_Get e)")
  case (Return ids)
  show ?thesis
  proof (cases "sysCerts e")
    case None
    with Return assms show ?thesis
      by (simp add: selectCerts_def)
  next
    case (Some s)
    with Return assms show ?thesis
      by (cases s) (auto simp: selectCerts_def select_loop_eq)
  qed
next
  case (Error err)
  with assms show ?thesis
    by (auto simp: selectCerts_def)
next
  case Panic
  with assms show ?thesis
    by (auto simp: selectCerts_def)
qed

lemma emit_certs_no_write:
  assumes "\<forall>ev\<in>set tr. \<not> is_write ev"
  shows "case emit_certs e certs (buf, tr) of
           Inl (err, tr') \<Rightarrow> \<forall>ev\<in>set tr'. \<not> is_write ev
         | Inr (buf', tr') \<Rightarrow> (\<forall>ev\<in>set tr'. \<not> is_write ev) \<and> prefix buf buf'"
  using assms
proof (induction certs arbitrary: buf tr)
  case Nil
  then show ?case by simp
next
  case (Cons c certs)
  let ?tr1 = "tr @ [LogPrintf (Subject c)]"
  from Cons.prems have tr1: "\<forall>ev\<in>set ?tr1. \<not> is_write ev"
    by simp
  show ?case
  proof (cases "allowedCAs (Subject c)")
    case None
    with Cons.IH [OF tr1, of buf] show ?thesis
      by (simp add: Let_def)
  next
    case (Some ok)
    show ?thesis
    proof (cases "pem_Encode e \<lparr>Type = ''CERTIFICATE'', Headers = [], Bytes = Raw c\<rparr>")
      case (Inl err)
      with Some tr1 show ?thesis
        by (simp add: Let_def)
    next
      case (Inr written)
      with Some Cons.IH [OF tr1, of "buf @ written"] show ?thesis
        by (auto simp: Let_def split: sum.splits dest: append_prefixD)
    qed
  qed
qed

lemma artifacts_no_write: "\<forall>ev\<in>set tr. \<not> is_write ev \<Longrightarrow> artifacts tr = []"
  by (induction tr rule: artifacts.induct) auto

lemma artifacts_append: "artifacts (tr @ tr') = artifacts tr @ artifacts tr'"
  by (induction tr rule: artifacts.induct) auto

lemma not_write_mem: "\<forall>ev\<in>set tr. \<not> is_write ev \<Longrightarrow> WriteFile p d \<notin> set tr"
  by auto

text \<open>The ways a run can end, with what it has done to the outside.\<close>

lemma main_cases:
  assumes "main e = Some (tr, fin)"
  obtains
    (select_failed) tr0 where "selectCerts e = Some (tr0, Panic)" "tr = tr0" "fin = Panicked"
  | (select_error) tr0 err where "selectCerts e = Some (tr0, Error err)" "tr = tr0" "fin = Fatal err"
  | (encode_error) tr0 certs err where "selectCerts e = Some (tr0, Return certs)"
      "emit_certs e certs (preamble output_flag, tr0) = Inl (err, tr)" "fin = Fatal err"
  | (format_error) tr0 certs buf err where "selectCerts e = Some (tr0, Return certs)"
      "emit_certs e certs (preamble output_flag, tr0) = Inr (buf, tr)"
      "format_Source e (buf @ ''`'') = Inl err" "fin = Fatal (''source format error:'' @ err)"
  | (written) tr0 certs buf tr1 source where "selectCerts e = Some (tr0, Return certs)"
      "emit_certs e certs (preamble output_flag, tr0) = Inr (buf, tr1)"
      "format_Source e (buf @ ''`'') = Inr source"
      "tr = tr1 @ [WriteFile output_flag source]"
      "case ioutil_WriteFile e output_flag source of None \<Rightarrow> fin = Done
       | Some err \<Rightarrow> fin = Fatal err"
  using assms
  by (auto simp: main_def split: option.splits prod.splits result.splits sum.splits)

lemma sysCerts_returns:
  assumes "\<forall>d b r. pem_Decode e d = (Some b, r) \<longrightarrow> length r < length d"
  shows "\<exists>r. sysCerts e = Some r"
proof (cases "cmd_Output e")
  case (Inl err)
  then show ?thesis by (simp add: sysCerts_def)
next
  case (Inr data)
  from sysCerts_loop_index [OF assms, of data] obtain idx
    where "sysCerts_loop e data Map.empty = Some idx"
    by blast
  with Inr show ?thesis by (simp add: sysCerts_def)
qed

lemma main_returns:
  assumes "\<forall>d b r. pem_Decode e d = (Some b, r) \<longrightarrow> length r < length d"
  shows "\<exists>tr fin. main e = Some (tr, fin)"
proof -
  from sysCerts_returns [OF assms] obtain r where "sysCerts e = Some r"
    by blast
  then have "\<exists>tr0 r0. selectCerts e = Some (tr0, r0)"
    by (cases r)
       (auto simp: selectCerts_def Let_def split: result.splits prod.splits)
  then show ?thesis
    by (auto simp: main_def split: result.splits sum.splits prod.splits option.splits)
qed

lemma no_write_iff: "(\<forall>ev\<in>set tr. \<not> is_write ev) \<longleftrightarrow> (\<forall>p d. WriteFile p d \<notin> set tr)"
proof
  assume "\<forall>ev\<in>set tr. \<not> is_write ev"
  then show "\<forall>p d. WriteFile p d \<notin> set tr" by auto
next
  assume none: "\<forall>p d. WriteFile p d \<notin> set tr"
  show "\<forall>ev\<in>set tr. \<not> is_write ev"
  proof
    fix ev assume "ev \<in> set tr"
    with none show "\<not> is_write ev" by (cases ev) auto
  qed
qed

lemma selectCerts_Return:
  "selectCerts e = Some (tr0, Return certs) \<Longrightarrow>
   (\<exists>ids. fetchCertIDs (strings_ToLower e) (http_Get e) = Return ids) \<and> (\<exists>data. cmd_Output e = Inr data)"
  by (auto simp: selectCerts_def sysCerts_def Let_def
      split: result.splits option.splits sum.splits prod.splits)

lemma emit_no_write_Inl:
  assumes "selectCerts e = Some (tr0, r)"
    and "emit_certs e certs (buf, tr0) = Inl (err, tr)"
  shows "\<forall>p d. WriteFile p d \<notin> set tr"
proof -
  from assms(1) have "\<forall>ev\<in>set tr0. \<not> is_write ev"
    by (rule selectCerts_no_write)
  from emit_certs_no_write [where e = e and certs = certs and buf = buf, OF this] assms(2)
  show ?thesis
    by (simp add: no_write_iff)
qed

lemma emit_no_write_Inr:
  assumes "selectCerts e = Some (tr0, r)"
    and "emit_certs e certs (buf, tr0) = Inr (buf', tr)"
  shows "(\<forall>p d. WriteFile p d \<notin> set tr) \<and> prefix buf buf'"
proof -
  from assms(1) have "\<forall>ev\<in>set tr0. \<not> is_write ev"
    by (rule selectCerts_no_write)
  from emit_certs_no_write [where e = e and certs = certs and buf = buf, OF this] assms(2)
  show ?thesis
    by (simp add: no_write_iff)
qed

lemma sysCerts_loop_same_le:
  assumes dec: "pem_Decode e2 = pem_Decode e1"
    and parse: "x509_ParseCertificate e2 = x509_ParseCertificate e1"
    and digest: "Sum256hex e2 = Sum256hex e1"
    and run: "sysCerts_loop e1 data certs = Some y"
  shows "sysCerts_loop e2 data certs = Some y"
proof -
  have "e = e1 \<longrightarrow> sysCerts_loop e2 data certs = Some y"
    if "sysCerts_loop e data certs = Some y" for e data certs y
  proof (rule sysCerts_loop.raw_induct
      [where P = "\<lambda>e data certs y. e = e1 \<longrightarrow> sysCerts_loop e2 data certs = Some y", OF _ that],
      goal_cases)
    case (1 f e data certs y)
    show ?case
    proof
      assume e: "e = e1"
      have IH: "sysCerts_loop e2 d c = Some z" if "f e1 d c = Some z" for d c z
        using 1(1) that by blast
      show "sysCerts_loop e2 data certs = Some y"
      proof (cases "0 < length data")
        case False
        with 1(2) show ?thesis
          by (subst sysCerts_loop.simps) simp
      next
        case True
        obtain block rest where d: "pem_Decode e1 data = (block, rest)"
          by (cases "pem_Decode e1 data")
        show ?thesis
        proof (cases block)
          case None
          with 1(2) True d e dec show ?thesis
            by (subst sysCerts_loop.simps) simp
        next
          case (Some b)
          show ?thesis
          proof (cases "Type b \<noteq> ''CERTIFICATE'' \<or> length (Headers b) \<noteq> 0")
            case skip: True
            with 1(2) True d e Some have "f e1 rest certs = Some y"
              by simp
            then have "sysCerts_loop e2 rest certs = Some y"
              by (rule IH)
            with True d Some skip dec show ?thesis
              by (subst sysCerts_loop.simps) simp
          next
            case cert: False
            show ?thesis
            proof (cases "x509_ParseCertificate e1 (Bytes b)")
              case (Inl err)
              with 1(2) True d e Some cert have "f e1 rest certs = Some y"
                by simp
              then have "sysCerts_loop e2 rest certs = Some y"
                by (rule IH)
              with True d Some cert Inl dec parse show ?thesis
                by (subst sysCerts_loop.simps) simp
            next
              case (Inr c)
              with 1(2) True d e Some cert
              have "f e1 rest (certs(Sum256hex e1 (Raw c) \<mapsto> c)) = Some y"
                by simp
              then have "sysCerts_loop e2 rest (certs(Sum256hex e1 (Raw c) \<mapsto> c)) = Some y"
                by (rule IH)
              with True d Some cert Inr dec parse digest show ?thesis
                by (subst sysCerts_loop.simps) simp
            qed
          qed
        qed
      qed
    qed
  qed
  with run show ?thesis
    by blast
qed

lemma sysCerts_loop_same:
  assumes "pem_Decode e2 = pem_Decode e1"
    and "x509_ParseCertificate e2 = x509_ParseCertificate e1"
    and "Sum256hex e2 = Sum256hex e1"
  shows "sysCerts_loop e2 data certs = sysCerts_loop e1 data certs"
proof (cases "sysCerts_loop e1 data certs")
  case (Some y)
  with assms show ?thesis
    by (simp add: sysCerts_loop_same_le [of e2 e1])
next
  case None
  show ?thesis
  proof (cases "sysCerts_loop e2 data certs")
    case (Some y)
    with assms have "sysCerts_loop e1 data certs = Some y"
      by (simp add: sysCerts_loop_same_le [of e1 e2])
    with None show ?thesis by simp
  next
    case None2: None
    with None show ?thesis by simp
  qed
qed

lemma emit_certs_same:
  "pem_Encode e2 = pem_Encode e1 \<Longrightarrow>
   emit_certs e2 certs (buf, tr) = emit_certs e1 certs (buf, tr)"
  by (induction certs arbitrary: buf tr) (auto simp: Let_def split: option.splits sum.splits)

lemma selectCerts_same:
  assumes "http_Get e2 = http_Get e1" and "cmd_Output e2 = cmd_Output e1"
    and "pem_Decode e2 = pem_Decode e1"
    and "x509_ParseCertificate e2 = x509_ParseCertificate e1"
    and "Sum256hex e2 = Sum256hex e1"
    and "strings_ToLower e2 = strings_ToLower e1"
  shows "selectCerts e2 = selectCerts e1"
proof -
  from assms(3-5) have "sysCerts_loop e2 data certs = sysCerts_loop e1 data certs" for data certs
    by (rule sysCerts_loop_same)
  with assms(2) have store: "sysCerts e2 = sysCerts e1"
    by (simp add: sysCerts_def split: sum.splits)
  show ?thesis
    unfolding selectCerts_def assms(1,6) store by (rule refl)
qed

text \<open>What a run writes, as a function of the certificates that pass the allow-list.\<close>

lemma main_artifacts:
  assumes "selectCerts e = Some (tr0, Return certs)"
  shows "map_option (artifacts \<circ> fst) (main e) =
         Some (case map_sum fst fst
                      (emit_certs e (allowlist_filter certs) (preamble output_flag, [])) of
                 Inl err \<Rightarrow> []
               | Inr buf \<Rightarrow>
                   (case format_Source e (buf @ ''`'') of
                      Inl err \<Rightarrow> []
                    | Inr source \<Rightarrow> [source]))"
proof -
  have same: "map_sum fst fst
                (emit_certs e (allowlist_filter certs) (preamble output_flag, [])) =
              map_sum fst fst (emit_certs e certs (preamble output_flag, tr0))"
    by (rule emit_certs_filtered)
  show ?thesis
  proof (cases "emit_certs e certs (preamble output_flag, tr0)")
    case (Inl a)
    obtain err tr1 where a: "a = (err, tr1)"
      by (cases a)
    from emit_no_write_Inl [OF assms Inl [unfolded a]] have "artifacts tr1 = []"
      by (simp add: artifacts_no_write no_write_iff)
    with assms Inl a same show ?thesis
      by (simp add: main_def)
  next
    case (Inr b)
    obtain buf tr1 where b: "b = (buf, tr1)"
      by (cases b)
    from emit_no_write_Inr [OF assms Inr [unfolded b]] have "artifacts tr1 = []"
      by (simp add: artifacts_no_write no_write_iff)
    with assms Inr b same show ?thesis
      by (auto simp: main_def artifacts_append split: sum.splits option.splits)
  qed
qed

lemma main_same_trace:
  assumes "selectCerts e2 = selectCerts e1"
    and "pem_Encode e2 = pem_Encode e1" and "format_Source e2 = format_Source e1"
  shows "map_option fst (main e2) = map_option fst (main e1)"
proof -
  from assms(2) have "emit_certs e2 certs (buf, tr) = emit_certs e1 certs (buf, tr)"
    for certs buf tr
    by (rule emit_certs_same)
  with assms(1,3) show ?thesis
    by (auto simp: main_def split: option.splits prod.splits result.splits sum.splits)
qed

lemma main_same:
  assumes "selectCerts e2 = selectCerts e1"
    and "pem_Encode e2 = pem_Encode e1" and "format_Source e2 = format_Source e1"
    and "ioutil_WriteFile e2 = ioutil_WriteFile e1"
  shows "main e2 = main e1"
proof -
  from assms(2) have "emit_certs e2 certs (buf, tr) = emit_certs e1 certs (buf, tr)"
    for certs buf tr
    by (rule emit_certs_same)
  with assms(1,3,4) show ?thesis
    by (auto simp: main_def split: option.splits prod.splits result.splits sum.splits)
qed

lemma written_source:
  assumes "main e = Some (tr, fin)" and "WriteFile p d \<in> set tr"
  shows "\<exists>rest. format_Source e (preamble output_flag @ rest) = Inr d"
  using assms(1)
proof (cases rule: main_cases)
  case (select_failed tr0)
  with assms(2) selectCerts_no_write [of e tr0 Panic] show ?thesis
    by auto
next
  case (select_error tr0 err)
  with assms(2) selectCerts_no_write [of e tr0 "Error err"] show ?thesis
    by auto
next
  case (encode_error tr0 certs err)
  with assms(2) emit_no_write_Inl [OF encode_error(1,2)] show ?thesis
    by auto
next
  case (format_error tr0 certs buf err)
  with assms(2) emit_no_write_Inr [OF format_error(1,2)] show ?thesis
    by auto
next
  case (written tr0 certs buf tr1 source)
  from emit_no_write_Inr [OF written(1,2)]
  have clean: "\<forall>p d. WriteFile p d \<notin> set tr1" and pre: "prefix (preamble output_flag) buf"
    by auto
  from assms(2) written(4) clean have "d = source"
    by auto
  moreover from pre obtain zs where "buf = preamble output_flag @ zs"
    by (auto simp: prefix_def)
  ultimately show ?thesis
    using written(3) by (intro exI [of _ "zs @ ''`''"]) simp
qed

lemma first_line_preamble:
  "first_line (preamble output_flag @ rest) =
   ''// Code generated by roots_gen --output roots_list.go; DO NOT EDIT.''"
  by (simp add: first_line_def preamble_def nl_def output_flag_def)

text \<open>
  With a formatter that leaves the first line of the text as it is, every file that is
  written is \<^verbatim>\<open>roots_list.go\<close> and names \<^verbatim>\<open>roots_list.go\<close> in its first line.
\<close>

lemma first_line_of_artifact:
  assumes "main e = Some (tr, fin)" and "WriteFile p d \<in> set tr"
    and "\<forall>s. prefix ''// Code generated by roots_gen --output '' s \<and>
            format_Source e s = Inr d \<longrightarrow> first_line d = first_line s"
  shows "first_line d = ''// Code generated by roots_gen --output roots_list.go; DO NOT EDIT.''"
proof -
  from written_source [OF assms(1,2)] obtain rest
    where src: "format_Source e (preamble output_flag @ rest) = Inr d"
    by blast
  have "prefix ''// Code generated by roots_gen --output '' (preamble output_flag @ rest)"
    by (simp add: preamble_def)
  with assms(3) src have "first_line d = first_line (preamble output_flag @ rest)"
    by blast
  then show ?thesis
    by (simp add: first_line_preamble)
qed

section \<open>The fetched document\<close>

text \<open>
  C1, as the code has it. A document without the text \<^verbatim>\<open><div id="trusted"\<close> makes
  \<^verbatim>\<open>strings.Index\<close> return \<^verbatim>\<open>-1\<close>, and the slice \<^verbatim>\<open>text[idx:]\<close> panics:
  \<^verbatim>\<open>fetchCertIDs\<close> returns neither identifiers nor an error. The run ends with the
  panic, after the request to the network and nothing else: the local store is not
  exported and no file is written.
\<close>

theorem missing_anchor_panics:
  assumes "\<not> sublist anchor text" and "http_Get e = Body text"
  shows "fetchCertIDs lower (Body text) = Panic \<and>
         main e = Some ([HTTPGet ''https://support.apple.com/en-us/HT208125''], Panicked)"
proof -
  from assms(1) have "fetchCertIDs l (Body text) = Panic" for l
    by (simp add: fetchCertIDs_def Let_def slice_from_neg Index_neg_iff)
  with assms(2) show ?thesis
    by (simp add: main_fetch_panic)
qed

theorem missing_anchor_panics_witness:
  "\<not> sublist anchor ''<html></html>'' \<and>
   fetchCertIDs ascii_ToLower (Body ''<html></html>'') = Panic \<and>
   main (toy_env\<lparr>http_Get := Body ''<html></html>''\<rparr>) =
     Some ([HTTPGet ''https://support.apple.com/en-us/HT208125''], Panicked)"
proof -
  have absent: "\<not> sublist anchor ''<html></html>''"
    by code_simp
  have body: "http_Get (toy_env\<lparr>http_Get := Body ''<html></html>''\<rparr>) = Body ''<html></html>''"
    by simp
  show ?thesis
    using missing_anchor_panics [OF absent body] absent by simp
qed

text \<open>
  C1, as the specification states it, fails: this body has no anchor, and
  \<^verbatim>\<open>fetchCertIDs\<close> panics instead of returning an error.
\<close>

theorem missing_anchor_counterexample:
  "Index ''<html><body>moved</body></html>'' anchor = - 1 \<and>
   fetchCertIDs ascii_ToLower (Body ''<html><body>moved</body></html>'') = Panic"
  by code_simp

text \<open>
  C2, as the code has it. \<^verbatim>\<open>cols\<close> is read with a plain map index, so a label that
  the header row does not have reads as column \<^verbatim>\<open>0\<close>, and no error is reported for
  it. For a document with the marked section and a header row, \<^verbatim>\<open>fetchCertIDs\<close>
  then returns one identifier for every data row, in order, built from the first cell of
  the row in the place of the missing column; it panics, and does so only, when some data
  row has no cell or too few cells for the other column.
\<close>

theorem missing_label_reads_first_cell:
  assumes "slice_from body (Index body anchor) = Return text1"
    and "slice_to text1 (Index text1 ''</div>'') = Return text2"
    and "FindAllStringSubmatch ''tr'' text2 = row0 # rows"
    and "cols = header_cols 0 (FindAllStringSubmatch ''th'' row0) Map.empty"
  shows "(''Certificate name'' \<notin> set (FindAllStringSubmatch ''th'' row0) \<longrightarrow>
           fetchCertIDs lower (Body body) =
             (if \<forall>row\<in>set rows.
                   0 < length (FindAllStringSubmatch ''td'' row) \<and>
                   col cols ''Fingerprint (SHA-256)'' < length (FindAllStringSubmatch ''td'' row)
              then Return (map (\<lambda>row.
                     \<lparr>name = ReplaceAll (FindAllStringSubmatch ''td'' row ! 0) ''&nbsp;'' '''',
                      fingerprint = lower (ReplaceAll (ReplaceAll (ReplaceAll (ReplaceAll
                        (FindAllStringSubmatch ''td'' row ! col cols ''Fingerprint (SHA-256)'')
                        ''<br>'' '''') nl '''') '' '' '''') ''&nbsp;'' '''')\<rparr>) rows)
              else Panic)) \<and>
         (''Fingerprint (SHA-256)'' \<notin> set (FindAllStringSubmatch ''th'' row0) \<longrightarrow>
           fetchCertIDs lower (Body body) =
             (if \<forall>row\<in>set rows.
                   col cols ''Certificate name'' < length (FindAllStringSubmatch ''td'' row) \<and>
                   0 < length (FindAllStringSubmatch ''td'' row)
              then Return (map (\<lambda>row.
                     \<lparr>name = ReplaceAll
                        (FindAllStringSubmatch ''td'' row ! col cols ''Certificate name'')
                        ''&nbsp;'' '''',
                      fingerprint = lower (ReplaceAll (ReplaceAll (ReplaceAll (ReplaceAll
                        (FindAllStringSubmatch ''td'' row ! 0)
                        ''<br>'' '''') nl '''') '' '' '''') ''&nbsp;'' '''')\<rparr>) rows)
              else Panic))"
proof -
  from assms(1,2,3) have "fetchCertIDs lower (Body body) =
      data_rows lower (header_cols 0 (FindAllStringSubmatch ''th'' row0) Map.empty) rows []"
    by (simp add: fetchCertIDs_def Let_def table_rows_def)
  with assms(4) have fetch: "fetchCertIDs lower (Body body) = data_rows lower cols rows []"
    by simp
  have zero: "col cols label = 0" if "label \<notin> set (FindAllStringSubmatch ''th'' row0)" for label
    using that assms(4) by (simp add: col_missing)
  show ?thesis
    unfolding fetch data_rows_eq [of lower cols rows "[]"]
    by (auto simp: zero)
qed

theorem missing_label_reads_first_cell_witness:
  "''Certificate name'' \<notin> set [''Fingerprint (SHA-256)'', ''Root''] \<and>
   fetchCertIDs ascii_ToLower (Body toy_unlabelled_page) =
     Return [\<lparr>name = ''AB CD'', fingerprint = ''abcd''\<rparr>, \<lparr>name = ''EF'', fingerprint = ''ef''\<rparr>]"
proof -
  let ?text1 = "drop (nat (Index toy_unlabelled_page anchor)) toy_unlabelled_page"
  let ?text2 = "take (nat (Index ?text1 ''</div>'')) ?text1"
  let ?row0 = "''<th>Fingerprint (SHA-256)</th><th>Root</th>''"
  let ?rows = "[''<td>AB CD</td><td>Root A</td>'', ''<td>EF</td><td>Root B</td>'']"
  let ?cols = "header_cols 0 (FindAllStringSubmatch ''th'' ?row0) Map.empty"
  have cut1: "slice_from toy_unlabelled_page (Index toy_unlabelled_page anchor) = Return ?text1"
    by code_simp
  have cut2: "slice_to ?text1 (Index ?text1 ''</div>'') = Return ?text2"
    by code_simp
  have rows: "FindAllStringSubmatch ''tr'' ?text2 = ?row0 # ?rows"
    by code_simp
  have header: "FindAllStringSubmatch ''th'' ?row0 = [''Fingerprint (SHA-256)'', ''Root'']"
    by code_simp
  have absent: "''Certificate name'' \<notin> set [''Fingerprint (SHA-256)'', ''Root'']"
    by simp
  have built: "(if \<forall>row\<in>set ?rows.
                   0 < length (FindAllStringSubmatch ''td'' row) \<and>
                   col ?cols ''Fingerprint (SHA-256)'' < length (FindAllStringSubmatch ''td'' row)
              then Return (map (\<lambda>row.
                     \<lparr>name = ReplaceAll (FindAllStringSubmatch ''td'' row ! 0) ''&nbsp;'' '''',
                      fingerprint = ascii_ToLower (ReplaceAll (ReplaceAll (ReplaceAll (ReplaceAll
                        (FindAllStringSubmatch ''td'' row ! col ?cols ''Fingerprint (SHA-256)'')
                        ''<br>'' '''') nl '''') '' '' '''') ''&nbsp;'' '''')\<rparr>) ?rows)
              else Panic) =
     Return [\<lparr>name = ''AB CD'', fingerprint = ''abcd''\<rparr>, \<lparr>name = ''EF'', fingerprint = ''ef''\<rparr>]"
    by code_simp
  from missing_label_reads_first_cell [OF cut1 cut2 rows refl, of ascii_ToLower] absent
  have "fetchCertIDs ascii_ToLower (Body toy_unlabelled_page) =
     (if \<forall>row\<in>set ?rows.
                   0 < length (FindAllStringSubmatch ''td'' row) \<and>
                   col ?cols ''Fingerprint (SHA-256)'' < length (FindAllStringSubmatch ''td'' row)
              then Return (map (\<lambda>row.
                     \<lparr>name = ReplaceAll (FindAllStringSubmatch ''td'' row ! 0) ''&nbsp;'' '''',
                      fingerprint = ascii_ToLower (ReplaceAll (ReplaceAll (ReplaceAll (ReplaceAll
                        (FindAllStringSubmatch ''td'' row ! col ?cols ''Fingerprint (SHA-256)'')
                        ''<br>'' '''') nl '''') '' '' '''') ''&nbsp;'' '''')\<rparr>) ?rows)
              else Panic)"
    unfolding header by blast
  with built absent show ?thesis
    by (simp only: simp_thms)
qed

text \<open>
  C2, as the specification states it, fails: the header row of this table has neither of
  the two labels, and \<^verbatim>\<open>fetchCertIDs\<close> returns an identifier built from the first cell.
\<close>

theorem missing_label_counterexample:
  "fetchCertIDs ascii_ToLower (Body (anchor @
     ''><tr><th>Issuer</th><th>Serial</th></tr><tr><td>Ab</td><td>C D</td></tr></div>'')) =
   Return [\<lparr>name = ''Ab'', fingerprint = ''ab''\<rparr>]"
  by code_simp

text \<open>
  C6. A data row with no more cells than the index of the name column or of the
  fingerprint column (so, in particular, with fewer) makes the index expression
  \<^verbatim>\<open>values[...]\<close> panic. The row is not skipped and the identifiers of the rows before
  it are not returned: \<^verbatim>\<open>fetchCertIDs\<close> panics, and the run ends there, with no file
  written.
\<close>

theorem short_row_is_fatal:
  assumes "slice_from body (Index body anchor) = Return text1"
    and "slice_to text1 (Index text1 ''</div>'') = Return text2"
    and "FindAllStringSubmatch ''tr'' text2 = row0 # rows"
    and "cols = header_cols 0 (FindAllStringSubmatch ''th'' row0) Map.empty"
    and "row \<in> set rows"
    and "length (FindAllStringSubmatch ''td'' row) \<le> col cols ''Certificate name'' \<or>
         length (FindAllStringSubmatch ''td'' row) \<le> col cols ''Fingerprint (SHA-256)''"
    and "http_Get e = Body body"
  shows "fetchCertIDs lower (Body body) = Panic \<and>
         main e = Some ([HTTPGet ''https://support.apple.com/en-us/HT208125''], Panicked)"
proof -
  have "fetchCertIDs l (Body body) = Panic" for l
  proof -
    from assms(6) have "data_row l cols row = Panic"
      by (rule data_row_short)
    with assms(5) have "data_rows l cols rows [] = Panic"
      by (rule data_rows_panic)
    with assms(3,4) have "table_rows l text2 = Panic"
      by (simp add: table_rows_def)
    with assms(1,2) show ?thesis
      by (simp add: fetchCertIDs_def Let_def)
  qed
  with assms(7) show ?thesis
    by (simp add: main_fetch_panic)
qed

theorem short_row_is_fatal_witness:
  "length (FindAllStringSubmatch ''td'' ''<td>FB</td>'') <
     col (header_cols 0 [''Fingerprint (SHA-256)'', ''Issuer'', ''Certificate name''] Map.empty)
       ''Certificate name'' \<and>
   fetchCertIDs ascii_ToLower (Body toy_short_page) = Panic \<and>
   main (toy_env\<lparr>http_Get := Body toy_short_page\<rparr>) =
     Some ([HTTPGet ''https://support.apple.com/en-us/HT208125''], Panicked)"
proof -
  let ?text1 = "drop (nat (Index toy_short_page anchor)) toy_short_page"
  let ?text2 = "take (nat (Index ?text1 ''</div>'')) ?text1"
  let ?row0 = "''<th>Fingerprint (SHA-256)</th><th>Issuer</th><th>Certificate name</th>''"
  have cut1: "slice_from toy_short_page (Index toy_short_page anchor) = Return ?text1"
    by code_simp
  have cut2: "slice_to ?text1 (Index ?text1 ''</div>'') = Return ?text2"
    by code_simp
  have rows: "FindAllStringSubmatch ''tr'' ?text2 =
      ?row0 # [''<td>FA</td><td>I</td><td>Root A</td>'', ''<td>FB</td>'']"
    by code_simp
  have row: "''<td>FB</td>'' \<in> set [''<td>FA</td><td>I</td><td>Root A</td>'', ''<td>FB</td>'']"
    by simp
  have header: "FindAllStringSubmatch ''th'' ?row0 =
      [''Fingerprint (SHA-256)'', ''Issuer'', ''Certificate name'']"
    by code_simp
  have few: "length (FindAllStringSubmatch ''td'' ''<td>FB</td>'') <
      col (header_cols 0 [''Fingerprint (SHA-256)'', ''Issuer'', ''Certificate name''] Map.empty)
        ''Certificate name''"
    by code_simp
  have short: "length (FindAllStringSubmatch ''td'' ''<td>FB</td>'') \<le>
        col (header_cols 0 (FindAllStringSubmatch ''th'' ?row0) Map.empty) ''Certificate name'' \<or>
      length (FindAllStringSubmatch ''td'' ''<td>FB</td>'') \<le>
        col (header_cols 0 (FindAllStringSubmatch ''th'' ?row0) Map.empty) ''Fingerprint (SHA-256)''"
    unfolding header using few by (intro disjI1 less_imp_le)
  have body: "http_Get (toy_env\<lparr>http_Get := Body toy_short_page\<rparr>) = Body toy_short_page"
    by simp
  show ?thesis
    using short_row_is_fatal [OF cut1 cut2 rows refl row short body] few by simp
qed

section \<open>Reconciling the listing with the store\<close>

text \<open>
  C3, as the code has it. The loop of \<^verbatim>\<open>selectCerts\<close> appends the indexed
  certificate for every listed identifier, with no test for one that it has appended
  before. When the listed fingerprints are pairwise distinct, and every key of the index
  is the fingerprint of its certificate (as \<^verbatim>\<open>sysCerts\<close> builds it), no two
  certificates of the result have the same fingerprint.
\<close>

theorem distinct_listing_distinct_bundle:
  assumes "distinct (map fingerprint ids)"
    and "\<forall>k c. scerts k = Some c \<longrightarrow> Sum256hex e (Raw c) = k"
  shows "distinct (map (\<lambda>c. Sum256hex e (Raw c)) (fst (select_loop scerts ids ([], tr))))"
proof -
  have "map (\<lambda>c. Sum256hex e (Raw c)) (fst (select_loop scerts ids ([], tr))) =
        filter (\<lambda>k. scerts k \<noteq> None) (map fingerprint ids)"
    using hit_fingerprints [OF assms(2)] by (simp add: select_loop_eq)
  with assms(1) show ?thesis
    by simp
qed

theorem distinct_listing_distinct_bundle_witness:
  "distinct (map fingerprint
     [\<lparr>name = ''Root A'', fingerprint = ''fa''\<rparr>, \<lparr>name = ''Root B'', fingerprint = ''fb''\<rparr>]) \<and>
   distinct (map (\<lambda>c. Sum256hex toy_env (Raw c))
     (fst (select_loop
        [''fa'' \<mapsto> \<lparr>Raw = ''a'', Subject = ''CN=A''\<rparr>, ''fb'' \<mapsto> \<lparr>Raw = ''b'', Subject = ''CN=B''\<rparr>]
        [\<lparr>name = ''Root A'', fingerprint = ''fa''\<rparr>, \<lparr>name = ''Root B'', fingerprint = ''fb''\<rparr>]
        ([], []))))"
proof -
  have listed: "distinct (map fingerprint
     [\<lparr>name = ''Root A'', fingerprint = ''fa''\<rparr>, \<lparr>name = ''Root B'', fingerprint = ''fb''\<rparr>])"
    by simp
  have keyed: "\<forall>k c.
      [''fa'' \<mapsto> \<lparr>Raw = ''a'', Subject = ''CN=A''\<rparr>, ''fb'' \<mapsto> \<lparr>Raw = ''b'', Subject = ''CN=B''\<rparr>] k
        = Some c \<longrightarrow> Sum256hex toy_env (Raw c) = k"
    by (auto simp: toy_env_def split: if_splits)
  show ?thesis
    using distinct_listing_distinct_bundle [OF listed keyed, of "[]"] listed by simp
qed

text \<open>
  C3, as the specification states it, fails: a fingerprint that is listed twice brings its
  certificate into the result twice.
\<close>

theorem duplicate_listing_counterexample:
  "fst (select_loop
     [''fa'' \<mapsto> \<lparr>Raw = ''a'', Subject = ''CN=A''\<rparr>]
     [\<lparr>name = ''Root A'', fingerprint = ''fa''\<rparr>, \<lparr>name = ''Root A (2)'', fingerprint = ''fa''\<rparr>]
     ([], [])) =
   [\<lparr>Raw = ''a'', Subject = ''CN=A''\<rparr>, \<lparr>Raw = ''a'', Subject = ''CN=A''\<rparr>] \<and>
   \<not> distinct (map (Sum256hex toy_env \<circ> Raw) (fst (select_loop
     [''fa'' \<mapsto> \<lparr>Raw = ''a'', Subject = ''CN=A''\<rparr>]
     [\<lparr>name = ''Root A'', fingerprint = ''fa''\<rparr>, \<lparr>name = ''Root A (2)'', fingerprint = ''fa''\<rparr>]
     ([], []))))"
  by simp

text \<open>
  C4. The loop of \<^verbatim>\<open>selectCerts\<close> is a total function of the identifiers and the
  index. Its certificates are the indexed certificates of the identifiers that are in the
  index, in order; its warnings are one line for every identifier that is not, with the
  name and the fingerprint of the identifier; together they are as many as the
  identifiers.
\<close>

theorem select_loop_accounts_for_all:
  "select_loop scerts ids (certs, tr) =
     (certs @ List.map_filter (\<lambda>cid. scerts (fingerprint cid)) ids,
      tr @ map (\<lambda>cid. Stdout (''WARNING: cannot find certificate: '' @ name cid @
                    '' (fingerprint: '' @ fingerprint cid @ '')'' @ [CHR 0x0A]))
             (filter (\<lambda>cid. scerts (fingerprint cid) = None) ids)) \<and>
   length (List.map_filter (\<lambda>cid. scerts (fingerprint cid)) ids) +
   length (filter (\<lambda>cid. scerts (fingerprint cid) = None) ids) = length ids"
  using select_loop_eq [of scerts ids certs tr] hits_and_misses [of scerts ids]
  by (simp add: warning_def nl_def)

section \<open>The allow-list\<close>

text \<open>
  C7. The loop of \<^verbatim>\<open>main\<close> writes to the buffer the encodings of the certificates
  whose subject is a key of \<^verbatim>\<open>allowedCAs\<close> (a map lookup: equality of strings), in the
  order of its input and nothing else. So the certificates that reach the buffer are the
  filter of the specification, a subsequence of the input; filtering a filtered sequence
  changes nothing, and neither does filtering before the loop.
\<close>

theorem allow_list_filter_exact:
  "((\<forall>b. pem_Encode e b = Inr (enc b)) \<longrightarrow>
      emit_certs e certs (buf, tr) =
        Inr (buf @ concat (map (\<lambda>c. enc (certificate_block c)) (allowlist_filter certs)),
             tr @ map (\<lambda>c. LogPrintf (Subject c)) certs)) \<and>
   allowlist_filter certs = filter (\<lambda>c. Subject c \<in> dom allowedCAs) certs \<and>
   subseq (allowlist_filter certs) certs \<and>
   allowlist_filter (allowlist_filter certs) = allowlist_filter certs \<and>
   map_sum fst fst (emit_certs e (allowlist_filter certs) (buf, tr)) =
     map_sum fst fst (emit_certs e certs (buf, tr))"
proof -
  have "allowlist_filter certs = filter (\<lambda>c. Subject c \<in> dom allowedCAs) certs"
    by (simp add: allowlist_filter_def dom_def)
  moreover have "subseq (allowlist_filter certs) certs"
    by (simp add: allowlist_filter_def)
  moreover have "allowlist_filter (allowlist_filter certs) = allowlist_filter certs"
    by (simp add: allowlist_filter_def)
  ultimately show ?thesis
    using emit_certs_encoded [of e enc certs buf tr] emit_certs_filtered [of e certs buf tr tr]
    by blast
qed

theorem allow_list_filter_exact_witness:
  "(\<forall>b. pem_Encode toy_env b = Inr (toy_pem b)) \<and>
   map_sum fst fst (emit_certs toy_env
     [\<lparr>Raw = ''z'', Subject = ''CN=Example Root z''\<rparr>,
      \<lparr>Raw = ''b'', Subject = ''CN=DST Root CA X3,O=Digital Signature Trust Co.''\<rparr>,
      \<lparr>Raw = ''y'', Subject = ''cn=dst root ca x3,o=digital signature trust co.''\<rparr>]
     ([], [])) =
   Inr (''-----BEGIN CERTIFICATE-----'' @ nl @ ''b'' @ nl @ ''-----END CERTIFICATE-----'' @ nl)"
proof -
  have total: "\<forall>b. pem_Encode toy_env b = Inr (toy_pem b)"
    by (simp add: toy_env_def toy_Encode_def)
  have kept: "allowlist_filter
     [\<lparr>Raw = ''z'', Subject = ''CN=Example Root z''\<rparr>,
      \<lparr>Raw = ''b'', Subject = ''CN=DST Root CA X3,O=Digital Signature Trust Co.''\<rparr>,
      \<lparr>Raw = ''y'', Subject = ''cn=dst root ca x3,o=digital signature trust co.''\<rparr>] =
     [\<lparr>Raw = ''b'', Subject = ''CN=DST Root CA X3,O=Digital Signature Trust Co.''\<rparr>]"
    by code_simp
  from allow_list_filter_exact [of toy_env toy_pem
     "[\<lparr>Raw = ''z'', Subject = ''CN=Example Root z''\<rparr>,
      \<lparr>Raw = ''b'', Subject = ''CN=DST Root CA X3,O=Digital Signature Trust Co.''\<rparr>,
      \<lparr>Raw = ''y'', Subject = ''cn=dst root ca x3,o=digital signature trust co.''\<rparr>]" "[]" "[]"]
    total kept
  show ?thesis
    by (simp add: toy_pem_def certificate_block_def)
qed

section \<open>The index of the local store\<close>

text \<open>
  C5, as the code has it. \<^verbatim>\<open>sysCerts\<close> returns an error only when the export
  command fails. Otherwise, with a \<^verbatim>\<open>pem.Decode\<close> that consumes input with every
  block it returns (as the decoder of the library does), the loop ends and returns an
  index: the entries of the blocks that \<^verbatim>\<open>pem.Decode\<close> returns, one call after the
  other until a call returns no block, a later entry winning over an earlier one with the
  same fingerprint. A returned block has no entry exactly when its type is not
  \<^verbatim>\<open>CERTIFICATE\<close>, it has headers, or its bytes do not parse as a certificate; such a
  block is passed over, and the index is the one of the returned blocks without it. Every
  fingerprint of a returned block that has an entry is a key of the index, and when no two
  entries share a fingerprint every such certificate is in the index. Nothing is said of
  the parts of the stream that \<^verbatim>\<open>pem.Decode\<close> does not return as blocks.
\<close>

theorem sysCerts_skips_bad_blocks:
  assumes "\<forall>d b r. pem_Decode e d = (Some b, r) \<longrightarrow> length r < length d"
  shows "case cmd_Output e of
           Inl err \<Rightarrow> sysCerts e = Some (Error err)
         | Inr data \<Rightarrow>
             (\<exists>bs idx. pem_blocks e data = Some bs \<and> sysCerts e = Some (Return idx) \<and>
                idx = map_of (rev (List.map_filter (block_entry e) bs)) \<and>
                dom idx = {k. \<exists>b\<in>set bs. \<exists>c. block_entry e b = Some (k, c)} \<and>
                (distinct (map fst (List.map_filter (block_entry e) bs)) \<longrightarrow>
                   (\<forall>b\<in>set bs. \<forall>k c. block_entry e b = Some (k, c) \<longrightarrow> idx k = Some c)) \<and>
                (\<forall>b. block_entry e b = None \<longleftrightarrow>
                   Type b \<noteq> ''CERTIFICATE'' \<or> Headers b \<noteq> [] \<or>
                   (\<exists>err. x509_ParseCertificate e (Bytes b) = Inl err)) \<and>
                (\<forall>bs1 bad bs2. bs = bs1 @ bad # bs2 \<and> block_entry e bad = None \<longrightarrow>
                   idx = map_of (rev (List.map_filter (block_entry e) (bs1 @ bs2)))))"
proof (cases "cmd_Output e")
  case (Inl err)
  then show ?thesis
    by (simp add: sysCerts_def)
next
  case (Inr data)
  from sysCerts_loop_index [OF assms, of data]
  obtain bs where bs: "pem_blocks e data = Some bs"
    and loop: "sysCerts_loop e data Map.empty =
                 Some (map_of (rev (List.map_filter (block_entry e) bs)))"
    by force
  let ?idx = "map_of (rev (List.map_filter (block_entry e) bs))"
  from Inr loop have "sysCerts e = Some (Return ?idx)"
    by (simp add: sysCerts_def)
  moreover have "dom ?idx = {k. \<exists>b\<in>set bs. \<exists>c. block_entry e b = Some (k, c)}"
    by (rule entries_dom)
  moreover have "distinct (map fst (List.map_filter (block_entry e) bs)) \<longrightarrow>
      (\<forall>b\<in>set bs. \<forall>k c. block_entry e b = Some (k, c) \<longrightarrow> ?idx k = Some c)"
    using entries_distinct [of e bs] by blast
  moreover have "\<forall>b. block_entry e b = None \<longleftrightarrow>
      Type b \<noteq> ''CERTIFICATE'' \<or> Headers b \<noteq> [] \<or>
      (\<exists>err. x509_ParseCertificate e (Bytes b) = Inl err)"
    by (simp add: block_entry_None)
  moreover have "\<forall>bs1 bad bs2. bs = bs1 @ bad # bs2 \<and> block_entry e bad = None \<longrightarrow>
      ?idx = map_of (rev (List.map_filter (block_entry e) (bs1 @ bs2)))"
    by (auto simp: entries_skip)
  ultimately show ?thesis
    using Inr bs by simp
qed

theorem sysCerts_skips_bad_blocks_witness:
  "cmd_Output (toy_env\<lparr>pem_Decode := Decode, cmd_Output := Inr store_mixed\<rparr>) = Inr store_mixed \<and>
   pem_blocks (toy_env\<lparr>pem_Decode := Decode, cmd_Output := Inr store_mixed\<rparr>) store_mixed =
     Some [\<lparr>Type = ''CERTIFICATE'', Headers = [], Bytes = ''a''\<rparr>,
           \<lparr>Type = ''CERTIFICATE'', Headers = [], Bytes = ''!''\<rparr>,
           \<lparr>Type = ''X509 CRL'', Headers = [], Bytes = ''b''\<rparr>,
           \<lparr>Type = ''CERTIFICATE'', Headers = [], Bytes = ''z''\<rparr>] \<and>
   lookups (toy_env\<lparr>pem_Decode := Decode, cmd_Output := Inr store_mixed\<rparr>)
       [''fa'', ''f!'', ''fb'', ''fz''] =
     Some [Some \<lparr>Raw = ''a'', Subject = toy_subject ''a''\<rparr>, None, None,
           Some \<lparr>Raw = ''z'', Subject = toy_subject ''z''\<rparr>]"
proof -
  let ?e = "toy_env\<lparr>pem_Decode := Decode, cmd_Output := Inr store_mixed\<rparr>"
  have progress: "\<forall>d b r. pem_Decode ?e d = (Some b, r) \<longrightarrow> length r < length d"
    by (simp add: Decode_consumes)
  have out: "cmd_Output ?e = Inr store_mixed"
    by simp
  have blocks: "pem_blocks ?e store_mixed =
      Some [\<lparr>Type = ''CERTIFICATE'', Headers = [], Bytes = ''a''\<rparr>,
            \<lparr>Type = ''CERTIFICATE'', Headers = [], Bytes = ''!''\<rparr>,
            \<lparr>Type = ''X509 CRL'', Headers = [], Bytes = ''b''\<rparr>,
            \<lparr>Type = ''CERTIFICATE'', Headers = [], Bytes = ''z''\<rparr>]"
    by code_simp
  have entries: "List.map_filter (block_entry ?e)
           [\<lparr>Type = ''CERTIFICATE'', Headers = [], Bytes = ''a''\<rparr>,
            \<lparr>Type = ''CERTIFICATE'', Headers = [], Bytes = ''!''\<rparr>,
            \<lparr>Type = ''X509 CRL'', Headers = [], Bytes = ''b''\<rparr>,
            \<lparr>Type = ''CERTIFICATE'', Headers = [], Bytes = ''z''\<rparr>] =
      [(''fa'', \<lparr>Raw = ''a'', Subject = toy_subject ''a''\<rparr>),
       (''fz'', \<lparr>Raw = ''z'', Subject = toy_subject ''z''\<rparr>)]"
    by (simp add: block_entry_def toy_env_def toy_Parse_def)
  from sysCerts_skips_bad_blocks [OF progress] out blocks entries
  have "sysCerts ?e = Some (Return (map_of (rev
      [(''fa'', \<lparr>Raw = ''a'', Subject = toy_subject ''a''\<rparr>),
       (''fz'', \<lparr>Raw = ''z'', Subject = toy_subject ''z''\<rparr>)])))"
    by auto
  then have "lookups ?e [''fa'', ''f!'', ''fb'', ''fz''] =
     Some [Some \<lparr>Raw = ''a'', Subject = toy_subject ''a''\<rparr>, None, None,
           Some \<lparr>Raw = ''z'', Subject = toy_subject ''z''\<rparr>]"
    by (simp add: lookups_def)
  with out blocks show ?thesis
    by (simp only: simp_thms)
qed

text \<open>
  C5, as the specification states it, fails. In the second store the blocks of \<^verbatim>\<open>a\<close>
  and \<^verbatim>\<open>z\<close> are whole and the block between them is cut off in mid-line, so that the
  \<^verbatim>\<open>-----BEGIN\<close> of the last block is not at the start of a line. \<^verbatim>\<open>pem.Decode\<close>
  returns the first block; at the cut-off block it takes the \<^verbatim>\<open>-----END\<close> line of the
  last block for the end, fails on the body, finds no other start of a block and returns
  none. The loop stops, and the index has \<^verbatim>\<open>a\<close> and not \<^verbatim>\<open>z\<close>, which it has for
  the store without the cut-off block.
\<close>

theorem truncated_block_counterexample:
  "pem_blocks (toy_env\<lparr>pem_Decode := Decode\<rparr>) store_cut =
     Some [\<lparr>Type = ''CERTIFICATE'', Headers = [], Bytes = ''a''\<rparr>] \<and>
   lookups (toy_env\<lparr>pem_Decode := Decode, cmd_Output := Inr store_cut\<rparr>) [''fa'', ''fz''] =
     Some [Some \<lparr>Raw = ''a'', Subject = toy_subject ''a''\<rparr>, None] \<and>
   lookups (toy_env\<lparr>pem_Decode := Decode, cmd_Output := Inr store_whole\<rparr>) [''fa'', ''fz''] =
     Some [Some \<lparr>Raw = ''a'', Subject = toy_subject ''a''\<rparr>,
           Some \<lparr>Raw = ''z'', Subject = toy_subject ''z''\<rparr>]"
  by code_simp

section \<open>The whole run\<close>

text \<open>
  C9, as the code has it. With a \<^verbatim>\<open>pem.Decode\<close> that consumes input, every run
  ends. A run that does not call \<^verbatim>\<open>ioutil.WriteFile\<close> ends with a non-zero exit
  code. The call is the last step of a run, to the path in \<^verbatim>\<open>*output\<close>, once the
  identifiers are fetched, the store is exported, every certificate is encoded and
  \<^verbatim>\<open>format.Source\<close> has returned the text that is written. So when the network
  fails or the parsing of the document panics, when the export command fails, or when
  encoding or formatting fails, the run ends with a non-zero exit code and has written
  nothing. A run that reaches the call ends with success exactly when the write
  succeeds; when the write fails, the run ends with a non-zero exit code after the call.
\<close>

theorem write_is_the_last_step:
  assumes "\<forall>d b r. pem_Decode e d = (Some b, r) \<longrightarrow> length r < length d"
  shows "\<exists>tr fin. main e = Some (tr, fin) \<and>
    ((\<forall>p d. WriteFile p d \<notin> set tr) \<longrightarrow> exit_code fin \<noteq> 0) \<and>
    (\<forall>p d. WriteFile p d \<in> set tr \<longrightarrow>
       p = output_flag \<and>
       (case ioutil_WriteFile e p d of None \<Rightarrow> fin = Done | Some err \<Rightarrow> fin = Fatal err) \<and>
       (\<exists>tr0 certs buf tr1.
          selectCerts e = Some (tr0, Return certs) \<and>
          emit_certs e certs (preamble output_flag, tr0) = Inr (buf, tr1) \<and>
          format_Source e (buf @ ''`'') = Inr d \<and>
          tr = tr1 @ [WriteFile p d] \<and> (\<forall>p' d'. WriteFile p' d' \<notin> set tr1))) \<and>
    ((\<forall>ids. fetchCertIDs (strings_ToLower e) (http_Get e) \<noteq> Return ids) \<or>
     (\<exists>err. cmd_Output e = Inl err) \<or>
     (\<exists>tr0 certs err tr1. selectCerts e = Some (tr0, Return certs) \<and>
        emit_certs e certs (preamble output_flag, tr0) = Inl (err, tr1)) \<or>
     (\<exists>tr0 certs buf tr1 err. selectCerts e = Some (tr0, Return certs) \<and>
        emit_certs e certs (preamble output_flag, tr0) = Inr (buf, tr1) \<and>
        format_Source e (buf @ ''`'') = Inl err)
     \<longrightarrow> (\<forall>p d. WriteFile p d \<notin> set tr) \<and> exit_code fin \<noteq> 0)"
proof -
  from main_returns [OF assms] obtain tr fin where run: "main e = Some (tr, fin)"
    by blast
  let ?failed = "(\<forall>ids. fetchCertIDs (strings_ToLower e) (http_Get e) \<noteq> Return ids) \<or>
     (\<exists>err. cmd_Output e = Inl err) \<or>
     (\<exists>tr0 certs err tr1. selectCerts e = Some (tr0, Return certs) \<and>
        emit_certs e certs (preamble output_flag, tr0) = Inl (err, tr1)) \<or>
     (\<exists>tr0 certs buf tr1 err. selectCerts e = Some (tr0, Return certs) \<and>
        emit_certs e certs (preamble output_flag, tr0) = Inr (buf, tr1) \<and>
        format_Source e (buf @ ''`'') = Inl err)"
  let ?complete = "\<lambda>p d. p = output_flag \<and>
       (case ioutil_WriteFile e p d of None \<Rightarrow> fin = Done | Some err \<Rightarrow> fin = Fatal err) \<and>
       (\<exists>tr0 certs buf tr1.
          selectCerts e = Some (tr0, Return certs) \<and>
          emit_certs e certs (preamble output_flag, tr0) = Inr (buf, tr1) \<and>
          format_Source e (buf @ ''`'') = Inr d \<and>
          tr = tr1 @ [WriteFile p d] \<and> (\<forall>p' d'. WriteFile p' d' \<notin> set tr1))"
  have unwritten: "(\<forall>p d. WriteFile p d \<notin> set tr) \<and> exit_code fin \<noteq> 0 \<or>
                   \<not> ?failed \<and> (\<exists>p d. WriteFile p d \<in> set tr) \<and>
                   (\<forall>p d. WriteFile p d \<in> set tr \<longrightarrow> ?complete p d)"
    using run
  proof (cases rule: main_cases)
    case (select_failed tr0)
    then show ?thesis
      using selectCerts_no_write [of e tr0 Panic] by (simp add: no_write_iff)
  next
    case (select_error tr0 err)
    then show ?thesis
      using selectCerts_no_write [of e tr0 "Error err"] by (simp add: no_write_iff)
  next
    case (encode_error tr0 certs err)
    then show ?thesis
      using emit_no_write_Inl [of e tr0 "Return certs" certs "preamble output_flag" err tr]
      by simp
  next
    case (format_error tr0 certs buf err)
    then show ?thesis
      using emit_no_write_Inr [of e tr0 "Return certs" certs "preamble output_flag" buf tr]
      by simp
  next
    case (written tr0 certs buf tr1 source)
    from written(1,2) have clean: "\<forall>p d. WriteFile p d \<notin> set tr1"
      using emit_no_write_Inr [of e tr0 "Return certs" certs "preamble output_flag" buf tr1]
      by simp
    from written(1) have "\<not> ?failed"
      using selectCerts_Return [of e tr0 certs] written(2,3) by auto
    moreover from written(4) have "\<exists>p d. WriteFile p d \<in> set tr"
      by auto
    moreover have "?complete p d" if "WriteFile p d \<in> set tr" for p d
    proof -
      from that written(4) clean have "p = output_flag" "d = source"
        by auto
      with written clean show ?thesis
        by blast
    qed
    ultimately show ?thesis
      by blast
  qed
  from unwritten have "((\<forall>p d. WriteFile p d \<notin> set tr) \<longrightarrow> exit_code fin \<noteq> 0) \<and>
    (\<forall>p d. WriteFile p d \<in> set tr \<longrightarrow> ?complete p d) \<and>
    (?failed \<longrightarrow> (\<forall>p d. WriteFile p d \<notin> set tr) \<and> exit_code fin \<noteq> 0)"
    by blast
  with run show ?thesis
    by blast
qed

theorem write_is_the_last_step_witness:
  "(\<exists>tr fin. main (toy_env\<lparr>format_Source := (\<lambda>s. Inl ''expected declaration'')\<rparr>) = Some (tr, fin) \<and>
      (\<forall>p d. WriteFile p d \<notin> set tr) \<and> exit_code fin \<noteq> 0 \<and>
      fin = Fatal ''source format error:expected declaration'')"
proof -
  let ?e = "toy_env\<lparr>format_Source := (\<lambda>s. Inl ''expected declaration'')\<rparr>"
  have progress: "\<forall>d b r. pem_Decode ?e d = (Some b, r) \<longrightarrow> length r < length d"
    by (auto simp: toy_env_def toy_Decode_def split: list.splits)
  have ending: "map_option snd (main ?e) = Some (Fatal ''source format error:expected declaration'')"
    by code_simp
  have fmt: "\<forall>s d. format_Source ?e s \<noteq> Inr d"
    by simp
  from write_is_the_last_step [OF progress] obtain tr fin
    where run: "main ?e = Some (tr, fin)"
      and silent: "(\<forall>p d. WriteFile p d \<notin> set tr) \<longrightarrow> exit_code fin \<noteq> 0"
      and complete: "\<forall>p d. WriteFile p d \<in> set tr \<longrightarrow>
         p = output_flag \<and>
         (case ioutil_WriteFile ?e p d of None \<Rightarrow> fin = Done | Some err \<Rightarrow> fin = Fatal err) \<and>
         (\<exists>tr0 certs buf tr1.
            selectCerts ?e = Some (tr0, Return certs) \<and>
            emit_certs ?e certs (preamble (output_flag), tr0) = Inr (buf, tr1) \<and>
            format_Source ?e (buf @ ''`'') = Inr d \<and>
            tr = tr1 @ [WriteFile p d] \<and> (\<forall>p' d'. WriteFile p' d' \<notin> set tr1))"
    by blast
  from complete fmt have none: "\<forall>p d. WriteFile p d \<notin> set tr"
    by blast
  from run ending have fin: "fin = Fatal ''source format error:expected declaration''"
    by simp
  from run none silent fin show ?thesis
    by blast
qed

text \<open>
  C9, as the specification states it, fails: in this run everything succeeds up to the
  write and the write fails. The run ends with exit code 1, and its last step is the call
  of \<^verbatim>\<open>ioutil.WriteFile\<close> on the output file.
\<close>

theorem failed_write_counterexample:
  "map_option snd (main (toy_env\<lparr>ioutil_WriteFile := toy_full_disk\<rparr>)) =
     Some (Fatal ''write roots_list.go: no space left on device'') \<and>
   map_option (exit_code \<circ> snd) (main (toy_env\<lparr>ioutil_WriteFile := toy_full_disk\<rparr>)) = Some 1 \<and>
   map_option (map is_write \<circ> fst) (main (toy_env\<lparr>ioutil_WriteFile := toy_full_disk\<rparr>)) =
     Some [False, False, False, False, False, True] \<and>
   map_option (last \<circ> fst) (main (toy_env\<lparr>ioutil_WriteFile := toy_full_disk\<rparr>)) =
     map_option (last \<circ> fst) (main toy_env)"
  by code_simp

text \<open>
  C8. The text that is written is a function of the certificates that pass the allow-list
  (with the encoder and the formatter of the library): nothing else enters the buffer but
  the fixed text around them, and the program reads no clock, no random source and no map
  in iteration order. Two runs write the same bytes when their filtered certificate
  sequences are the same, and do the same to the outside, event for event, when the
  network and the export command answer the same; the command line and the outcome of
  the write itself change nothing of that.
\<close>

theorem same_inputs_same_artifact:
  assumes "pem_Encode e2 = pem_Encode e1"
    and "format_Source e2 = format_Source e1"
  shows "(http_Get e2 = http_Get e1 \<and> cmd_Output e2 = cmd_Output e1 \<and>
          strings_ToLower e2 = strings_ToLower e1 \<and>
          pem_Decode e2 = pem_Decode e1 \<and>
          x509_ParseCertificate e2 = x509_ParseCertificate e1 \<and>
          Sum256hex e2 = Sum256hex e1 \<longrightarrow>
            map_option fst (main e2) = map_option fst (main e1)) \<and>
         (\<forall>tr1 tr2 certs1 certs2.
            selectCerts e1 = Some (tr1, Return certs1) \<and>
            selectCerts e2 = Some (tr2, Return certs2) \<and>
            allowlist_filter certs2 = allowlist_filter certs1 \<longrightarrow>
              map_option (artifacts \<circ> fst) (main e2) = map_option (artifacts \<circ> fst) (main e1))"
proof -
  have whole: "map_option fst (main e2) = map_option fst (main e1)"
    if "http_Get e2 = http_Get e1" "cmd_Output e2 = cmd_Output e1"
      "pem_Decode e2 = pem_Decode e1" "x509_ParseCertificate e2 = x509_ParseCertificate e1"
      "Sum256hex e2 = Sum256hex e1" "strings_ToLower e2 = strings_ToLower e1"
  proof -
    from that have "selectCerts e2 = selectCerts e1"
      by (rule selectCerts_same)
    then show ?thesis
      using assms by (rule main_same_trace)
  qed
  have emitter: "map_option (artifacts \<circ> fst) (main e2) = map_option (artifacts \<circ> fst) (main e1)"
    if "selectCerts e1 = Some (tr1, Return certs1)" "selectCerts e2 = Some (tr2, Return certs2)"
      "allowlist_filter certs2 = allowlist_filter certs1" for tr1 tr2 certs1 certs2
    unfolding main_artifacts [OF that(1)] main_artifacts [OF that(2)] that(3) assms
      emit_certs_same [OF assms(1)]
    by (rule refl)
  from whole emitter show ?thesis
    by blast
qed

theorem same_inputs_same_artifact_witness:
  "map_option fst (main (toy_env\<lparr>ioutil_WriteFile := (\<lambda>file data. Some ''disk full'')\<rparr>)) =
     map_option fst (main toy_env) \<and>
   map_option (artifacts \<circ> fst)
     (main (toy_env\<lparr>ioutil_WriteFile := (\<lambda>file data. Some ''disk full'')\<rparr>)) =
     map_option (artifacts \<circ> fst) (main toy_env) \<and>
   map_option snd (main (toy_env\<lparr>ioutil_WriteFile := (\<lambda>file data. Some ''disk full'')\<rparr>)) =
     Some (Fatal ''disk full'') \<and>
   map_option snd (main toy_env) = Some Done"
proof -
  let ?e = "toy_env\<lparr>ioutil_WriteFile := (\<lambda>file data. Some ''disk full'')\<rparr>"
  have enc: "pem_Encode ?e = pem_Encode toy_env"
    and fmt: "format_Source ?e = format_Source toy_env"
    by simp_all
  have inputs: "http_Get ?e = http_Get toy_env \<and> cmd_Output ?e = cmd_Output toy_env \<and>
      strings_ToLower ?e = strings_ToLower toy_env \<and>
      pem_Decode ?e = pem_Decode toy_env \<and>
      x509_ParseCertificate ?e = x509_ParseCertificate toy_env \<and>
      Sum256hex ?e = Sum256hex toy_env"
    by simp
  have endings: "map_option snd (main ?e) = Some (Fatal ''disk full'')"
    "map_option snd (main toy_env) = Some Done"
    by code_simp+
  from same_inputs_same_artifact [OF enc fmt] inputs
  have trace: "map_option fst (main ?e) = map_option fst (main toy_env)"
    by blast
  then have "map_option (artifacts \<circ> fst) (main ?e) = map_option (artifacts \<circ> fst) (main toy_env)"
    by (simp add: option.map_comp [symmetric])
  with trace endings show ?thesis
    by blast
qed

text \<open>
  C10. The first line of the buffer is
  \<^verbatim>\<open>// Code generated by roots_gen --output <path>; DO NOT EDIT.\<close> with the value of
  \<^verbatim>\<open>*output\<close> for \<^verbatim>\<open><path>\<close>, and the file is written to that path. The flag is
  declared as the file name to write, but \<^verbatim>\<open>main\<close> does not call \<^verbatim>\<open>flag.Parse\<close>,
  so an \<^verbatim>\<open>--output\<close> option on the command line is not read: a run does the same
  whatever its command line is. The run with \<^verbatim>\<open>--output other.go\<close> writes
  \<^verbatim>\<open>roots_list.go\<close>, byte for byte the file of the run without the option, with
  \<^verbatim>\<open>roots_list.go\<close> in its first line.
\<close>

theorem output_option_is_not_read:
  "main (e\<lparr>os_Args := args\<rparr>) = main e \<and>
   main (toy_env\<lparr>os_Args := [''--output'', ''other.go'']\<rparr>) = main toy_env \<and>
   map_option (map first_line \<circ> artifacts \<circ> fst)
     (main (toy_env\<lparr>os_Args := [''--output'', ''other.go'']\<rparr>)) =
     Some [''// Code generated by roots_gen --output roots_list.go; DO NOT EDIT.''] \<and>
   map_option (last \<circ> fst) (main (toy_env\<lparr>os_Args := [''--output'', ''other.go'']\<rparr>)) =
     Some (WriteFile ''roots_list.go''
       (hd (artifacts (fst (the (main (toy_env\<lparr>os_Args := [''--output'', ''other.go'']\<rparr>)))))))"
proof -
  have any: "main (e\<lparr>os_Args := args\<rparr>) = main e" for e :: env and args
  proof -
    have "selectCerts (e\<lparr>os_Args := args\<rparr>) = selectCerts e"
      by (rule selectCerts_same) simp_all
    then show ?thesis
      by (rule main_same) simp_all
  qed
  have line: "map_option (map first_line \<circ> artifacts \<circ> fst) (main toy_env) =
      Some [''// Code generated by roots_gen --output roots_list.go; DO NOT EDIT.'']"
    by code_simp
  have target: "map_option (last \<circ> fst) (main toy_env) =
      Some (WriteFile ''roots_list.go'' (hd (artifacts (fst (the (main toy_env))))))"
    by code_simp
  from line target show ?thesis
    by (simp only: any simp_thms)
qed

end
